theory Spec2Isabelle
  imports Complex_Main "HOL-Library.Product_Lexorder" "HOL-Library.Extended_Nat"
begin

section \<open>Shared vocabulary\<close>

text \<open>
  An ObjectId is twelve bytes; the store compares two of them bytewise, which is the order
  of the 96-bit number the bytes spell. The model keeps that number.
\<close>

type_synonym oid = nat

text \<open>
  \<^verbatim>\<open>throw new ApiError(status, message)\<close>: the typed failure every controller raises.
  Anything else that escapes (a driver error, a TypeError) is \<open>Uncaught\<close>.
\<close>

datatype thrown = ApiError nat string | Uncaught string

section \<open>Category tree resolver (product.controller.js, getDescendantCategoryIds)\<close>

record category =
  cat_id :: oid
  parentCategoryId :: "oid option"

text \<open>
  \<^verbatim>\<open>Category.find({ parentCategoryId: { $in: queue } }, '_id').lean()\<close> followed by
  \<^verbatim>\<open>children.map((child) => child._id)\<close>: the ids of the categories whose parent is in
  the frontier, in the collection's order.
\<close>

definition childIds_of :: "category list \<Rightarrow> oid list \<Rightarrow> oid list" where
  "childIds_of cats queue =
     map cat_id
       (filter (\<lambda>c. case parentCategoryId c of None \<Rightarrow> False | Some p \<Rightarrow> p \<in> set queue) cats)"

text \<open>
  \<open>maxDepth\<close> is what the callers pass: nothing (\<open>undefined\<close>, here \<open>None\<close>) or the
  number that \<^verbatim>\<open>parseInt\<close> returned, a whole number or \<^verbatim>\<open>Infinity\<close> (\<open>\<infinity>\<close>).

  \<^verbatim>\<open>maxDepth && depth >= maxDepth\<close>: an absent \<open>maxDepth\<close> and the number \<open>0\<close> are both
  falsy in JavaScript, and no depth is ever at least \<^verbatim>\<open>Infinity\<close>, so only a positive
  finite bound ever stops the loop.
\<close>

definition depth_reached :: "enat option \<Rightarrow> nat \<Rightarrow> bool" where
  "depth_reached maxDepth depth =
     (case maxDepth of None \<Rightarrow> False | Some m \<Rightarrow> m \<noteq> 0 \<and> m \<le> enat depth)"

text \<open>
  The \<^verbatim>\<open>while (queue.length > 0)\<close> loop with its two \<^verbatim>\<open>break\<close>s. The loop may run for
  ever (a cycle with no bound), so it is a partial function: not returning is \<open>None\<close>.
  It returns the array \<open>ids\<close> together with the final value of the counter \<open>depth\<close>,
  which the loop increments once per frontier expansion.
\<close>

partial_function (option) descend_loop ::
  "category list \<Rightarrow> enat option \<Rightarrow> oid list \<Rightarrow> oid list \<Rightarrow> nat \<Rightarrow> (oid list \<times> nat) option"
where
  "descend_loop cats maxDepth ids queue depth =
     (if queue = [] then Some (ids, depth)
      else if depth_reached maxDepth depth then Some (ids, depth)
      else if childIds_of cats queue = [] then Some (ids, depth)
      else descend_loop cats maxDepth (ids @ childIds_of cats queue)
             (childIds_of cats queue) (depth + 1))"

definition getDescendantCategoryIds ::
  "category list \<Rightarrow> oid \<Rightarrow> enat option \<Rightarrow> bool \<Rightarrow> (oid list \<times> nat) option" where
  "getDescendantCategoryIds cats ancestorId maxDepth includeSelf =
     descend_loop cats maxDepth (if includeSelf then [ancestorId] else []) [ancestorId] 0"

text \<open>The parent chain A -> B -> C -> D of the specification, with A = 1, ..., D = 4.\<close>

definition chain_ABCD :: "category list" where
  "chain_ABCD =
     [\<lparr>cat_id = 1, parentCategoryId = None\<rparr>,
      \<lparr>cat_id = 2, parentCategoryId = Some 1\<rparr>,
      \<lparr>cat_id = 3, parentCategoryId = Some 2\<rparr>,
      \<lparr>cat_id = 4, parentCategoryId = Some 3\<rparr>]"

text \<open>A tree that forks: 1 has the children 2 and 3, 2 has the child 4, 3 has the child 5.\<close>

definition forked :: "category list" where
  "forked =
     [\<lparr>cat_id = 1, parentCategoryId = None\<rparr>,
      \<lparr>cat_id = 2, parentCategoryId = Some 1\<rparr>,
      \<lparr>cat_id = 3, parentCategoryId = Some 1\<rparr>,
      \<lparr>cat_id = 4, parentCategoryId = Some 2\<rparr>,
      \<lparr>cat_id = 5, parentCategoryId = Some 3\<rparr>]"

text \<open>A category that is its own parent.\<close>

definition self_loop :: "category list" where
  "self_loop = [\<lparr>cat_id = 7, parentCategoryId = Some 7\<rparr>]"


section \<open>JavaScript values and the runtime library\<close>

text \<open>
  A JavaScript number is a double. The model keeps the finite ones as rationals (every
  finite double is one, and \<^verbatim>\<open>Math.floor\<close> and the comparisons are exact on them) and
  the three that are not finite as constants.
\<close>

datatype number = Finite rat | NaN | PosInfinity | NegInfinity

text \<open>
  A whole number of magnitude up to \<open>2 ^ 53\<close> is a double. A larger one that the program
  computes or parses becomes the nearest double: it is rounded to 53 significant bits,
  to the even neighbour when it lies halfway. \<open>bit_length\<close> is the number of binary
  digits.
\<close>

fun bit_length :: "nat \<Rightarrow> nat" where
  "bit_length n = (if n = 0 then 0 else Suc (bit_length (n div 2)))"

declare bit_length.simps [simp del]

definition nearest_double :: "int \<Rightarrow> int" where
  "nearest_double x =
     (let a = nat \<bar>x\<bar>;
          e = bit_length a - 53;
          m = a div 2 ^ e;
          r = a mod 2 ^ e;
          m' = (if 2 ^ e < 2 * r \<or> (2 * r = 2 ^ e \<and> odd m) then m + 1 else m)
      in sgn x * int (m' * 2 ^ e))"

text \<open>What a parsed JSON body, or \<^verbatim>\<open>JSON.parse\<close>, can hold. A missing property
  (\<^verbatim>\<open>undefined\<close>) is \<open>None\<close> of \<open>json option\<close>.\<close>

datatype json =
  JNull | JBool bool | JNum number | JStr string | JArr "json list" | JObj "(string \<times> json) list"

text \<open>
  An instant is a \<^verbatim>\<open>Date\<close>, kept as the UTC calendar fields that \<^verbatim>\<open>toISOString\<close>
  prints: year, month, day, hour, minute, second, millisecond. The lexicographic order on
  the tuple is the order of the time values.
\<close>

type_synonym instant = "int \<times> nat \<times> nat \<times> nat \<times> nat \<times> nat \<times> nat"

text \<open>
  The functions of Node, ECMAScript and the mongoose/bson library that the controllers
  call. They are not code of this repository, and some differ between library versions
  (what \<^verbatim>\<open>isValidObjectId\<close> accepts besides 24 hexadecimal digits), so the controllers
  take them as a parameter. A function that can throw returns \<open>None\<close> where it does.
\<close>

record runtime =
  ToNumber_object :: "json \<Rightarrow> number"
    \<comment> \<open>\<^verbatim>\<open>Number(v)\<close> for a string that is not empty, an array or an object\<close>
  base64_encode :: "string \<Rightarrow> string"
    \<comment> \<open>\<^verbatim>\<open>Buffer.from(s).toString('base64')\<close>\<close>
  base64_decode :: "string \<Rightarrow> string"
    \<comment> \<open>\<^verbatim>\<open>Buffer.from(s, 'base64').toString('utf8')\<close>\<close>
  JSON_stringify :: "json \<Rightarrow> string"
  JSON_parse :: "string \<Rightarrow> json option"
    \<comment> \<open>\<open>None\<close>: SyntaxError\<close>
  toISOString :: "instant \<Rightarrow> string"
  Date_of :: "json \<Rightarrow> instant option"
    \<comment> \<open>\<^verbatim>\<open>new Date(v)\<close>; \<open>None\<close> when \<^verbatim>\<open>getTime()\<close> is NaN\<close>
  isValidObjectId :: "json option \<Rightarrow> bool"
  ObjectId_of :: "json option \<Rightarrow> oid option"
    \<comment> \<open>\<^verbatim>\<open>new mongoose.Types.ObjectId(v)\<close>, and the cast of an id in a query; \<open>None\<close>: it throws\<close>
  ObjectId_toString :: "oid \<Rightarrow> string"

text \<open>
  \<^verbatim>\<open>Number(value)\<close>: \<^verbatim>\<open>undefined\<close> is NaN, \<^verbatim>\<open>null\<close> is 0, \<^verbatim>\<open>false\<close> and
  \<^verbatim>\<open>true\<close> are 0 and 1, the empty string is 0, a number is itself.
\<close>

definition Number :: "runtime \<Rightarrow> json option \<Rightarrow> number" where
  "Number rt value =
     (case value of
        None \<Rightarrow> NaN
      | Some JNull \<Rightarrow> Finite 0
      | Some (JBool b) \<Rightarrow> Finite (if b then 1 else 0)
      | Some (JNum n) \<Rightarrow> n
      | Some (JStr s) \<Rightarrow> if s = [] then Finite 0 else ToNumber_object rt (JStr s)
      | Some v \<Rightarrow> ToNumber_object rt v)"

text \<open>Truthiness: what \<^verbatim>\<open>!v\<close> negates.\<close>

definition truthy :: "json option \<Rightarrow> bool" where
  "truthy value =
     (case value of
        None \<Rightarrow> False
      | Some JNull \<Rightarrow> False
      | Some (JBool b) \<Rightarrow> b
      | Some (JNum n) \<Rightarrow> n \<noteq> Finite 0 \<and> n \<noteq> NaN
      | Some (JStr s) \<Rightarrow> s \<noteq> []
      | Some _ \<Rightarrow> True)"

text \<open>\<^verbatim>\<open>decoded?.key\<close>: a property of an object, \<^verbatim>\<open>undefined\<close> on anything else.\<close>

definition property :: "json \<Rightarrow> string \<Rightarrow> json option" where
  "property v key = (case v of JObj kvs \<Rightarrow> map_of kvs key | _ \<Rightarrow> None)"

section \<open>Cart: add an item or increment it (cart.controller.js)\<close>

text \<open>
  \<^verbatim>\<open>normalizeQuantity\<close>: \<open>None\<close> is the \<^verbatim>\<open>null\<close> it returns for a number that is not
  finite.
\<close>

definition normalizeQuantity :: "runtime \<Rightarrow> json option \<Rightarrow> int option" where
  "normalizeQuantity rt value =
     (case Number rt value of Finite q \<Rightarrow> Some \<lfloor>q\<rfloor> | _ \<Rightarrow> None)"

record cart_item =
  item_id :: oid
  userId :: oid
  productId :: oid
  quantity :: int

text \<open>
  The collections the controller touches: \<open>products\<close> maps a product id to its
  \<^verbatim>\<open>countInstock\<close>, \<open>cart\<close> is the cartProduct collection with its unique index on
  \<open>(userId, productId)\<close>, \<open>shopping_cart\<close> the array of cart item ids of each user.
  Quantities and stock are whole numbers here; the controller only adds and compares
  them.
\<close>

record store =
  products :: "(oid \<times> int) list"
  cart :: "cart_item list"
  shopping_cart :: "(oid \<times> oid list) list"
  next_id :: oid

definition findById :: "store \<Rightarrow> oid \<Rightarrow> int option" where
  "findById s pid = map_of (products s) pid"

definition findOne :: "store \<Rightarrow> oid \<Rightarrow> oid \<Rightarrow> cart_item option" where
  "findOne s uid pid = find (\<lambda>i. userId i = uid \<and> productId i = pid) (cart s)"

datatype store_error = DuplicateKey | WriteFailed

text \<open>
  \<^verbatim>\<open>existing.quantity + normalizedQuantity\<close>: both are doubles, and so is the sum, the
  double nearest to the exact one. (From \<open>2 ^ 1024\<close> on a double is an infinity. The
  rounded number stands for it: like the infinity it is above every stock a product can
  have, or below the least quantity the schema lets in.)
\<close>

definition add_numbers :: "int \<Rightarrow> int \<Rightarrow> int" where
  "add_numbers a b = nearest_double (a + b)"

text \<open>
  \<^verbatim>\<open>CartProduct.create\<close>: the schema (\<^verbatim>\<open>min: 1\<close>) refuses a quantity below 1 with a
  ValidationError before anything is written, and the unique index refuses a second item
  of the same user and product with error code 11000. \<open>fault\<close> stands for any other
  failure of the write. \<open>WriteFailed\<close> is every error whose code is not 11000.
\<close>

definition create :: "bool \<Rightarrow> store \<Rightarrow> oid \<Rightarrow> oid \<Rightarrow> int \<Rightarrow> store_error + cart_item \<times> store" where
  "create fault s uid pid q =
     (if fault \<or> q < 1 then Inl WriteFailed
      else if findOne s uid pid \<noteq> None then Inl DuplicateKey
      else
        (let item = \<lparr>item_id = next_id s, userId = uid, productId = pid, quantity = q\<rparr>
         in Inr (item, s\<lparr>cart := cart s @ [item], next_id := next_id s + 1\<rparr>)))"

text \<open>
  \<^verbatim>\<open>item.save()\<close> after \<^verbatim>\<open>item.quantity = q\<close>: an update of that one field of the
  document with the item's id. \<open>None\<close> when it throws: the schema refuses a quantity
  below 1 (ValidationError, before anything is written), or the document is gone
  (DocumentNotFoundError). \<open>save_failure\<close> is what it throws then.
\<close>

definition save :: "store \<Rightarrow> cart_item \<Rightarrow> store option" where
  "save s item =
     (if 1 \<le> quantity item \<and> item_id item \<in> item_id ` set (cart s)
      then Some (s\<lparr>cart := map (\<lambda>i. if item_id i = item_id item
                                      then i\<lparr>quantity := quantity item\<rparr> else i) (cart s)\<rparr>)
      else None)"

definition save_failure :: "cart_item \<Rightarrow> thrown" where
  "save_failure item =
     Uncaught (if quantity item < 1 then ''ValidationError'' else ''DocumentNotFoundError'')"

text \<open>\<^verbatim>\<open>User.findByIdAndUpdate(uid, { $addToSet: { shopping_cart: id } })\<close>.\<close>

definition addToSet :: "store \<Rightarrow> oid \<Rightarrow> oid \<Rightarrow> store" where
  "addToSet s uid iid =
     s\<lparr>shopping_cart :=
         map (\<lambda>(u, ids). if u = uid \<and> iid \<notin> set ids then (u, ids @ [iid]) else (u, ids))
           (shopping_cart s)\<rparr>"

record add_request =
  req_user :: oid
  body_productId :: "json option"
  body_quantity :: "json option"

text \<open>
  Other requests run between the awaits of this one. \<open>others k\<close> is what they do to the
  store just before this request's \<open>k\<close>-th store operation; \<open>create_fault\<close> makes the
  create fail for a reason other than the unique index; \<open>update_fault\<close> is the error, if
  any, that \<^verbatim>\<open>User.findByIdAndUpdate\<close> throws.
\<close>

record environment =
  others :: "nat \<Rightarrow> store \<Rightarrow> store"
  create_fault :: bool
  update_fault :: "store_error option"

text \<open>The store after the first \<open>k\<close> interferences alone, this request writing nothing.\<close>

fun others_upto :: "environment \<Rightarrow> nat \<Rightarrow> store \<Rightarrow> store" where
  "others_upto env 0 s = s"
| "others_upto env (Suc k) s = others env (Suc k) (others_upto env k s)"

text \<open>A response: status, body, message (\<^verbatim>\<open>new ApiResponse(status, data, message)\<close>).\<close>

type_synonym 'a response = "nat \<times> 'a \<times> string"

definition exceeds_stock :: thrown where
  "exceeds_stock = ApiError 400 ''Requested quantity exceeds available stock''"

text \<open>
  What a run of the controller leaves: the response or the error thrown, the store, and
  the cart items this request wrote, in order, each as it was written by
  \<^verbatim>\<open>create\<close> or \<^verbatim>\<open>save\<close>.
\<close>

type_synonym outcome = "(thrown + cart_item response) \<times> store \<times> cart_item list"

text \<open>
  The \<^verbatim>\<open>catch\<close> block. It receives whatever was thrown inside the \<^verbatim>\<open>try\<close>, by the
  create or by the update of the user. \<open>k\<close> numbers its first store operation and
  \<open>written\<close> is what the request has written so far.
\<close>

definition recover ::
  "environment \<Rightarrow> oid \<Rightarrow> oid \<Rightarrow> int \<Rightarrow> int \<Rightarrow> store_error \<Rightarrow> nat \<Rightarrow> store \<Rightarrow> cart_item list
     \<Rightarrow> outcome" where
  "recover env uid pid normalizedQuantity countInstock error k s written =
     (if error = DuplicateKey then
        (let s1 = others env k s in
         case findOne s1 uid pid of
           None \<Rightarrow> (Inl (ApiError 409 ''Cart item already exists''), s1, written)
         | Some conflictItem \<Rightarrow>
             (let updatedQuantity = add_numbers (quantity conflictItem) normalizedQuantity in
              if updatedQuantity > countInstock then (Inl exceeds_stock, s1, written)
              else
                (let s2 = others env (k + 1) s1;
                     item = conflictItem\<lparr>quantity := updatedQuantity\<rparr>
                 in case save s2 item of
                      None \<Rightarrow> (Inl (save_failure item), s2, written)
                    | Some s3 \<Rightarrow>
                        (Inr (200, item, ''Cart item quantity updated''), s3, written @ [item]))))
      else (Inl (ApiError 500 ''Failed to add item to cart''), s, written))"

text \<open>
  The second half of the controller, from \<^verbatim>\<open>Product.findById\<close> on, for a valid
  product id and a normalized quantity.
\<close>

definition addOrIncrement_run :: "environment \<Rightarrow> oid \<Rightarrow> oid \<Rightarrow> int \<Rightarrow> store \<Rightarrow> outcome" where
  "addOrIncrement_run env uid pid normalizedQuantity s =
     (let s1 = others env 1 s in
      case findById s1 pid of
        None \<Rightarrow> (Inl (ApiError 404 ''Product not found''), s1, [])
      | Some countInstock \<Rightarrow>
          (let s2 = others env 2 s1 in
           case findOne s2 uid pid of
             Some existingCartItem \<Rightarrow>
               (let updatedQuantity = add_numbers (quantity existingCartItem) normalizedQuantity in
                if updatedQuantity > countInstock then (Inl exceeds_stock, s2, [])
                else
                  (let s3 = others env 3 s2;
                       item = existingCartItem\<lparr>quantity := updatedQuantity\<rparr>
                   in case save s3 item of
                        None \<Rightarrow> (Inl (save_failure item), s3, [])
                      | Some s4 \<Rightarrow> (Inr (200, item, ''Cart item quantity updated''), s4, [item])))
           | None \<Rightarrow>
               if normalizedQuantity > countInstock then (Inl exceeds_stock, s2, [])
               else
                 (let s3 = others env 3 s2 in
                  case create (create_fault env) s3 uid pid normalizedQuantity of
                    Inl error \<Rightarrow>
                      recover env uid pid normalizedQuantity countInstock error 4 s3 []
                  | Inr (cartItem, s4) \<Rightarrow>
                      (let s5 = others env 4 s4 in
                       case update_fault env of
                         None \<Rightarrow>
                           (Inr (201, cartItem, ''Item added to cart''),
                            addToSet s5 uid (item_id cartItem), [cartItem])
                       | Some error \<Rightarrow>
                           recover env uid pid normalizedQuantity countInstock error 5 s5
                             [cartItem]))))"

text \<open>The response and the store of a run.\<close>

definition addOrIncrement ::
  "environment \<Rightarrow> oid \<Rightarrow> oid \<Rightarrow> int \<Rightarrow> store \<Rightarrow> (thrown + cart_item response) \<times> store" where
  "addOrIncrement env uid pid normalizedQuantity s =
     (case addOrIncrement_run env uid pid normalizedQuantity s of (r, s', written) \<Rightarrow> (r, s'))"

text \<open>\<^verbatim>\<open>normalizeQuantity(quantity) ?? 1\<close>: only \<^verbatim>\<open>null\<close> gives way to the default.\<close>

definition quantity_or_1 :: "runtime \<Rightarrow> json option \<Rightarrow> int" where
  "quantity_or_1 rt value = (case normalizeQuantity rt value of None \<Rightarrow> 1 | Some q \<Rightarrow> q)"

text \<open>
  \<^verbatim>\<open>addToCartItemController\<close>: the quantity is normalized and both body fields are
  checked before the first store operation.
\<close>

definition addToCartItemController ::
  "runtime \<Rightarrow> environment \<Rightarrow> add_request \<Rightarrow> store \<Rightarrow> (thrown + cart_item response) \<times> store" where
  "addToCartItemController rt env req s =
     (let normalizedQuantity = quantity_or_1 rt (body_quantity req)
      in if \<not> isValidObjectId rt (body_productId req)
         then (Inl (ApiError 400 ''Invalid product id''), s)
         else if normalizedQuantity = 0 \<or> normalizedQuantity < 1
         then (Inl (ApiError 400 ''Quantity must be at least 1''), s)
         else
           (case ObjectId_of rt (body_productId req) of
              None \<Rightarrow> (Inl (Uncaught ''CastError''), s)
            | Some pid \<Rightarrow> addOrIncrement env (req_user req) pid normalizedQuantity s))"


subsection \<open>Two runs of the controller\<close>

text \<open>No other request interferes and no write fails.\<close>

definition quiet :: environment where
  "quiet = \<lparr>others = (\<lambda>k s. s), create_fault = False, update_fault = None\<rparr>"

text \<open>The same, but the update of the user's \<open>shopping_cart\<close> fails.\<close>

definition update_fails :: environment where
  "update_fails = \<lparr>others = (\<lambda>k s. s), create_fault = False, update_fault = Some WriteFailed\<rparr>"

text \<open>
  A race: just before this request's create (its third store operation) another request
  of the same user creates the item, and just before the re-read (the fourth) the item is
  deleted again.
\<close>

definition race :: environment where
  "race =
     \<lparr>others = (\<lambda>k s.
         if k = 3 then s\<lparr>cart := cart s @ [\<lparr>item_id = next_id s, userId = 1,
                                            productId = 0x507f1f77bcf86cd799439011,
                                            quantity = 1\<rparr>],
                         next_id := next_id s + 1\<rparr>
         else if k = 4 then s\<lparr>cart := []\<rparr>
         else s),
      create_fault = False, update_fault = None\<rparr>"

text \<open>The same, but the item created by the other request stays.\<close>

definition contend :: environment where
  "contend =
     \<lparr>others = (\<lambda>k s.
         if k = 3 then s\<lparr>cart := cart s @ [\<lparr>item_id = next_id s, userId = 1,
                                            productId = 0x507f1f77bcf86cd799439011,
                                            quantity = 1\<rparr>],
                         next_id := next_id s + 1\<rparr>
         else s),
      create_fault = False, update_fault = None\<rparr>"

definition shop :: store where
  "shop = \<lparr>products = [(0x507f1f77bcf86cd799439011, 5)], cart = [],
           shopping_cart = [(1, [])], next_id = 100\<rparr>"

text \<open>
  A store where the user already holds \<open>2 ^ 53\<close> of a product that has as many in
  stock.
\<close>

definition warehouse :: store where
  "warehouse =
     \<lparr>products = [(0x507f1f77bcf86cd799439011, 2 ^ 53)],
      cart = [\<lparr>item_id = 100, userId = 1, productId = 0x507f1f77bcf86cd799439011,
               quantity = 2 ^ 53\<rparr>],
      shopping_cart = [(1, [100])], next_id = 101\<rparr>"

definition add_request_of :: "json option \<Rightarrow> add_request" where
  "add_request_of q =
     \<lparr>req_user = 1, body_productId = Some (JStr ''507f1f77bcf86cd799439011''),
      body_quantity = q\<rparr>"

section \<open>Cursor codec (product.controller.js, encodeCursor and decodeCursor)\<close>

text \<open>
  A stored product, as \<^verbatim>\<open>.lean()\<close> returns it. The schema sets \<^verbatim>\<open>timestamps: true\<close>,
  so every document has \<open>createdAt\<close> and \<open>_id\<close> (the field \<open>p_id\<close>), and the
  \<^verbatim>\<open>?.\<close> of \<^verbatim>\<open>encodeCursor\<close> never meets \<^verbatim>\<open>undefined\<close>.
\<close>

record product =
  p_id :: oid
  createdAt :: instant
  price :: rat
  rating :: rat
  category :: oid
  isfeatured :: bool
  name :: string

record cursor =
  c_createdAt :: instant
  c_id :: oid

definition cursor_payload :: "runtime \<Rightarrow> instant \<Rightarrow> oid \<Rightarrow> json" where
  "cursor_payload rt t i =
     JObj [(''createdAt'', JStr (toISOString rt t)), (''id'', JStr (ObjectId_toString rt i))]"

definition encodeCursor :: "runtime \<Rightarrow> product \<Rightarrow> string" where
  "encodeCursor rt doc =
     base64_encode rt (JSON_stringify rt (cursor_payload rt (createdAt doc) (p_id doc)))"

definition invalid_cursor :: thrown where
  "invalid_cursor = ApiError 400 ''Invalid cursor''"

text \<open>
  \<^verbatim>\<open>decodeCursor\<close>. The whole body stands in a \<^verbatim>\<open>try\<close> whose \<^verbatim>\<open>catch\<close> rethrows an
  ApiError and turns everything else into \<^verbatim>\<open>ApiError(400, 'Invalid cursor')\<close>: the
  SyntaxError of \<^verbatim>\<open>JSON.parse\<close> and whatever the ObjectId constructor throws end there.
\<close>

definition decodeCursor :: "runtime \<Rightarrow> string \<Rightarrow> thrown + cursor" where
  "decodeCursor rt value =
     (case JSON_parse rt (base64_decode rt value) of
        None \<Rightarrow> Inl invalid_cursor
      | Some decoded \<Rightarrow>
          if \<not> truthy (property decoded ''createdAt'') \<or> \<not> truthy (property decoded ''id'')
          then Inl invalid_cursor
          else
            (case Option.bind (property decoded ''createdAt'') (Date_of rt) of
               None \<Rightarrow> Inl invalid_cursor
             | Some t \<Rightarrow>
                 if \<not> isValidObjectId rt (property decoded ''id'') then Inl invalid_cursor
                 else
                   (case ObjectId_of rt (property decoded ''id'') of
                      None \<Rightarrow> Inl invalid_cursor
                    | Some i \<Rightarrow> Inr \<lparr>c_createdAt = t, c_id = i\<rparr>)))"

section \<open>Query composer (buildCursorFilter, combineQuery, buildSort)\<close>

text \<open>A filter of the store: an object of field conditions, \<^verbatim>\<open>$or\<close> or \<^verbatim>\<open>$and\<close>.\<close>

datatype val = VDate instant | VId oid | VNum rat | VBool bool | VStr string

datatype cond = Eq val | Lt val | Gt val | Lte val | Gte val | In "val list"

datatype query = Fields "(string \<times> cond) list" | Or "query list" | And "query list"

definition field_of :: "product \<Rightarrow> string \<Rightarrow> val option" where
  "field_of d f =
     (if f = ''_id'' then Some (VId (p_id d))
      else if f = ''createdAt'' then Some (VDate (createdAt d))
      else if f = ''price'' then Some (VNum (price d))
      else if f = ''rating'' then Some (VNum (rating d))
      else if f = ''category'' then Some (VId (category d))
      else if f = ''isfeatured'' then Some (VBool (isfeatured d))
      else if f = ''name'' then Some (VStr (name d))
      else None)"

text \<open>
  The store compares within a type only: a date with a date, an id with an id, a number
  with a number. (Strings and booleans are matched for equality only in this model.)
\<close>

fun val_less :: "val \<Rightarrow> val \<Rightarrow> bool" where
  "val_less (VDate a) (VDate b) = (a < b)"
| "val_less (VId a) (VId b) = (a < b)"
| "val_less (VNum a) (VNum b) = (a < b)"
| "val_less _ _ = False"

fun holds :: "cond \<Rightarrow> val option \<Rightarrow> bool" where
  "holds c None = False"
| "holds (Eq v) (Some x) = (x = v)"
| "holds (Lt v) (Some x) = val_less x v"
| "holds (Gt v) (Some x) = val_less v x"
| "holds (Lte v) (Some x) = (val_less x v \<or> x = v)"
| "holds (Gte v) (Some x) = (val_less v x \<or> x = v)"
| "holds (In vs) (Some x) = (x \<in> set vs)"

fun matches :: "query \<Rightarrow> product \<Rightarrow> bool" where
  "matches (Fields fs) d = list_all (\<lambda>(f, c). holds c (field_of d f)) fs"
| "matches (Or qs) d = list_ex (\<lambda>q. matches q d) qs"
| "matches (And qs) d = list_all (\<lambda>q. matches q d) qs"

text \<open>\<^verbatim>\<open>buildCursorFilter(cursor, sortKey)\<close>; \<open>None\<close> is \<^verbatim>\<open>null\<close>.\<close>

definition buildCursorFilter :: "cursor option \<Rightarrow> string option \<Rightarrow> query option" where
  "buildCursorFilter c sortKey =
     (case c of
        None \<Rightarrow> None
      | Some cur \<Rightarrow>
          if sortKey = Some ''oldest''
          then Some (Or [Fields [(''createdAt'', Gt (VDate (c_createdAt cur)))],
                         Fields [(''createdAt'', Eq (VDate (c_createdAt cur))),
                                 (''_id'', Gt (VId (c_id cur)))]])
          else Some (Or [Fields [(''createdAt'', Lt (VDate (c_createdAt cur)))],
                         Fields [(''createdAt'', Eq (VDate (c_createdAt cur))),
                                 (''_id'', Lt (VId (c_id cur)))]]))"

text \<open>
  \<^verbatim>\<open>combineQuery(baseQuery, extraQuery)\<close>. \<^verbatim>\<open>Object.keys(baseQuery).length === 0\<close> holds
  of the empty object only, \<open>Fields []\<close>.
\<close>

definition combineQuery :: "query option \<Rightarrow> query option \<Rightarrow> query option" where
  "combineQuery baseQuery extraQuery =
     (case extraQuery of
        None \<Rightarrow> baseQuery
      | Some e \<Rightarrow>
          (case baseQuery of
             None \<Rightarrow> Some e
           | Some b \<Rightarrow> if b = Fields [] then Some e else Some (And [b, e])))"

text \<open>A sort specification: the fields in order, each with its direction \<open>1\<close> or \<open>-1\<close>.\<close>

type_synonym sort_spec = "(string \<times> int) list"

definition buildSort :: "string option \<Rightarrow> sort_spec" where
  "buildSort sortKey =
     (if sortKey = Some ''price_asc'' then [(''price'', 1)]
      else if sortKey = Some ''price_desc'' then [(''price'', -1)]
      else if sortKey = Some ''rating_desc'' then [(''rating'', -1)]
      else if sortKey = Some ''oldest'' then [(''createdAt'', 1)]
      else [(''createdAt'', -1)])"

text \<open>The \<^verbatim>\<open>cursorSort\<close> of the cursor branch.\<close>

definition cursorSort :: "string option \<Rightarrow> sort_spec" where
  "cursorSort sortKey =
     (if sortKey = Some ''oldest'' then [(''createdAt'', 1), (''_id'', 1)]
      else [(''createdAt'', -1), (''_id'', -1)])"

section \<open>The store's find, sort, skip and limit\<close>

text \<open>
  \<open>key_less\<close>: the order of two field values under a sort; a missing field sorts first.
\<close>

fun key_less :: "val option \<Rightarrow> val option \<Rightarrow> bool" where
  "key_less None None = False"
| "key_less None (Some y) = True"
| "key_less (Some x) None = False"
| "key_less (Some x) (Some y) = val_less x y"

text \<open>\<open>before spec a b\<close>: the sort puts \<open>a\<close> strictly before \<open>b\<close>.\<close>

fun before :: "sort_spec \<Rightarrow> product \<Rightarrow> product \<Rightarrow> bool" where
  "before [] a b = False"
| "before ((f, dir) # rest) a b =
     (if key_less (field_of a f) (field_of b f) then 0 < dir
      else if key_less (field_of b f) (field_of a f) then dir < 0
      else before rest a b)"

text \<open>
  The store promises no order among documents the sort leaves tied. The model takes the
  stable one (ties stay in the collection's order), one of the orders the store may give.
\<close>

fun insert_doc :: "sort_spec \<Rightarrow> product \<Rightarrow> product list \<Rightarrow> product list" where
  "insert_doc spec x [] = [x]"
| "insert_doc spec x (y # ys) =
     (if before spec x y then x # y # ys else y # insert_doc spec x ys)"

definition sort_docs :: "sort_spec \<Rightarrow> product list \<Rightarrow> product list" where
  "sort_docs spec xs = foldl (\<lambda>acc x. insert_doc spec x acc) [] xs"

text \<open>\<^verbatim>\<open>Product.find(q).sort(spec).skip(n).limit(m).lean()\<close>; a \<^verbatim>\<open>null\<close> filter matches all.\<close>

definition find_docs ::
  "product list \<Rightarrow> query option \<Rightarrow> sort_spec \<Rightarrow> nat \<Rightarrow> nat \<Rightarrow> product list" where
  "find_docs coll q spec n m =
     take m (drop n (sort_docs spec
       (filter (\<lambda>d. case q of None \<Rightarrow> True | Some f \<Rightarrow> matches f d) coll)))"

definition countDocuments :: "product list \<Rightarrow> query \<Rightarrow> nat" where
  "countDocuments coll q = length (filter (matches q) coll)"

text \<open>A list is newest first when each document is strictly newer than all after it.\<close>

definition newest_first :: "product list \<Rightarrow> bool" where
  "newest_first xs = sorted_wrt (\<lambda>a b. createdAt b < createdAt a) xs"

section \<open>Paginated lister (product.controller.js, listProducts)\<close>

definition is_space :: "char \<Rightarrow> bool" where
  "is_space c = (c \<in> set [CHR 0x20, CHR 0x09, CHR 0x0A, CHR 0x0B, CHR 0x0C, CHR 0x0D])"

text \<open>The digit \<open>d\<close> as a character: \<open>0\<close> to \<open>9\<close>, then \<open>a\<close> to \<open>f\<close>.\<close>

definition digit_char :: "nat \<Rightarrow> char" where
  "digit_char d = (if d < 10 then char_of (48 + d) else char_of (87 + d))"

text \<open>The value of a digit in a base up to sixteen; letters in either case.\<close>

definition digit_value :: "nat \<Rightarrow> char \<Rightarrow> nat option" where
  "digit_value b c =
     (let n = (of_char c :: nat);
          v = (if 48 \<le> n \<and> n \<le> 57 then n - 48
               else if 97 \<le> n \<and> n \<le> 102 then n - 87
               else if 65 \<le> n \<and> n \<le> 70 then n - 55
               else 16)
      in if v < b then Some v else None)"

fun number_of :: "nat \<Rightarrow> nat \<Rightarrow> string \<Rightarrow> nat option" where
  "number_of b acc [] = Some acc"
| "number_of b acc (c # cs) =
     (case digit_value b c of None \<Rightarrow> None | Some d \<Rightarrow> number_of b (acc * b + d) cs)"

text \<open>
  \<^verbatim>\<open>parseInt(v, 10)\<close> of a query parameter: leading white space, a sign, then the longest
  run of decimal digits; \<open>None\<close> is NaN (no digit, or the parameter is missing). The
  number is the exact one the digits spell; \<^verbatim>\<open>parseInt\<close> returns the double nearest to
  it, which is the same number up to \<open>2 ^ 53\<close>.
\<close>

definition parseInt10 :: "string option \<Rightarrow> int option" where
  "parseInt10 v =
     (case v of
        None \<Rightarrow> None
      | Some s \<Rightarrow>
          (let t = dropWhile is_space s;
               neg = (t \<noteq> [] \<and> hd t = CHR ''-'');
               u = (if t \<noteq> [] \<and> (hd t = CHR ''-'' \<or> hd t = CHR ''+'') then tl t else t);
               ds = takeWhile (\<lambda>c. digit_value 10 c \<noteq> None) u
           in case (if ds = [] then None else number_of 10 0 ds) of
                None \<Rightarrow> None
              | Some n \<Rightarrow> Some (if neg then - int n else int n)))"

text \<open>\<^verbatim>\<open>x || dflt\<close> for a number: NaN and 0 are falsy.\<close>

definition or_default :: "int option \<Rightarrow> int \<Rightarrow> int" where
  "or_default x dflt = (case x of None \<Rightarrow> dflt | Some n \<Rightarrow> if n = 0 then dflt else n)"

definition parsePagination :: "string option \<Rightarrow> string option \<Rightarrow> int \<times> int" where
  "parsePagination page limit =
     (max (or_default (parseInt10 page) 1) 1,
      min (max (or_default (parseInt10 limit) 10) 1) 100)"

text \<open>
  \<^verbatim>\<open>parsePositiveInt(value, label)\<close> of a query parameter. \<^verbatim>\<open>Number.parseInt\<close> returns a
  double: the nearest one to the digits read, and \<^verbatim>\<open>Infinity\<close> from
  \<open>2 ^ 1024 - 2 ^ 970\<close> on, the first value that no finite double is nearest to.
  \<^verbatim>\<open>Infinity\<close> is not NaN and not below 1, so it is returned like any positive number.
\<close>

definition parseInt_number :: "int \<Rightarrow> enat" where
  "parseInt_number n =
     (if 2 ^ 1024 - 2 ^ 970 \<le> n then \<infinity> else enat (nat (nearest_double n)))"

definition parsePositiveInt :: "string option \<Rightarrow> string \<Rightarrow> thrown + enat option" where
  "parsePositiveInt value label =
     (if value = None \<or> value = Some [] then Inr None
      else
        (case parseInt10 value of
           None \<Rightarrow> Inl (ApiError 400 (label @ '' must be a positive integer''))
         | Some parsed \<Rightarrow>
             if parsed < 1 then Inl (ApiError 400 (label @ '' must be a positive integer''))
             else Inr (Some (parseInt_number parsed))))"

text \<open>
  The branch of \<^verbatim>\<open>listProducts\<close> for a request that names an ancestor category:
  \<open>maxDepth\<close> is parsed, \<open>includeSelf\<close> is true unless the parameter is the text
  \<open>false\<close>, and the resolver is called. \<open>Inr None\<close>: the resolver does not return.
\<close>

definition descendants_for ::
  "category list \<Rightarrow> oid \<Rightarrow> string option \<Rightarrow> string option
     \<Rightarrow> thrown + (oid list \<times> nat) option" where
  "descendants_for cats ancestorCategoryId q_maxDepth q_includeSelf =
     (case parsePositiveInt q_maxDepth ''maxDepth'' of
        Inl e \<Rightarrow> Inl e
      | Inr maxDepth \<Rightarrow>
          Inr (getDescendantCategoryIds cats ancestorCategoryId maxDepth
                 (q_includeSelf \<noteq> Some ''false'')))"

record list_request =
  q_page :: "string option"
  q_limit :: "string option"
  q_sort :: "string option"
  q_cursor :: "string option"

datatype page_info =
  OffsetMode (total: nat) (page: int) (limit: int) (totalPages: nat)
| CursorMode (limit: int) (nextCursor: "string option") (hasNextPage: bool)

record listing =
  items :: "product list"
  pagination :: page_info

text \<open>A query parameter is truthy when it is present and not the empty string.\<close>

definition given :: "string option \<Rightarrow> bool" where
  "given v = (v \<noteq> None \<and> v \<noteq> Some [])"

definition unsupported_sort :: thrown where
  "unsupported_sort = ApiError 400 ''Cursor pagination supports only newest or oldest sorting''"

text \<open>
  \<^verbatim>\<open>listProducts\<close> from the cursor test on. \<open>query\<close> is the filter that
  \<^verbatim>\<open>buildProductQuery\<close> returned for the request; \<open>coll\<close> is the product collection.
\<close>

definition listProducts ::
  "runtime \<Rightarrow> product list \<Rightarrow> query \<Rightarrow> list_request \<Rightarrow> thrown + listing response" where
  "listProducts rt coll query req =
     (let (pageNumber, limitNumber) = parsePagination (q_page req) (q_limit req);
          sortKey = q_sort req;
          sort_by = buildSort sortKey;
          cursorValue = q_cursor req
      in if given cursorValue then
           (if given sortKey \<and> sortKey \<noteq> Some ''oldest'' then Inl unsupported_sort
            else
              (case decodeCursor rt (the cursorValue) of
                 Inl e \<Rightarrow> Inl e
               | Inr cur \<Rightarrow>
                   (let cursorFilter = buildCursorFilter (Some cur) sortKey;
                        finalQuery = combineQuery (Some query) cursorFilter;
                        found = find_docs coll finalQuery (cursorSort sortKey) 0
                                  (nat limitNumber + 1);
                        hasNext = (int (length found) > limitNumber);
                        products = (if hasNext then butlast found else found);
                        next = (if hasNext then Some (encodeCursor rt (last products)) else None)
                    in Inr (200,
                            \<lparr>items = products,
                             pagination = CursorMode limitNumber next hasNext\<rparr>,
                            ''Products fetched successfully''))))
         else
           (let skip = (pageNumber - 1) * limitNumber;
                products = find_docs coll (Some query) sort_by (nat skip) (nat limitNumber);
                n = countDocuments coll query
            in Inr (200,
                    \<lparr>items = products,
                     pagination = OffsetMode n pageNumber limitNumber
                                    (nat \<lceil>rat_of_nat n / rat_of_int limitNumber\<rceil>)\<rparr>,
                    ''Products fetched successfully'')))"

text \<open>
  The documents that match a filter, newest first, and the page size a \<open>limit\<close>
  parameter stands for.
\<close>

definition newest_matching :: "product list \<Rightarrow> query \<Rightarrow> product list" where
  "newest_matching coll query = sort_docs (buildSort None) (filter (matches query) coll)"

definition limit_of :: "string option \<Rightarrow> nat" where
  "limit_of lmt = nat (snd (parsePagination None lmt))"

section \<open>A client that walks the pages\<close>

text \<open>The decimal text of a page number, as a client writes it in the query string.\<close>

function decimal :: "nat \<Rightarrow> string" where
  "decimal n = (if n < 10 then [digit_char n] else decimal (n div 10) @ [digit_char (n mod 10)])"
  by pat_completeness auto
termination
  by (relation "measure id") auto

declare decimal.simps [simp del]

text \<open>The documents of a response; none when the request failed.\<close>

definition items_of :: "thrown + listing response \<Rightarrow> product list" where
  "items_of r = (case r of Inl e \<Rightarrow> [] | Inr (status, l, msg) \<Rightarrow> items l)"

definition list_request_of ::
  "string option \<Rightarrow> string option \<Rightarrow> string option \<Rightarrow> string option \<Rightarrow> list_request" where
  "list_request_of p l srt c = \<lparr>q_page = p, q_limit = l, q_sort = srt, q_cursor = c\<rparr>"

text \<open>
  Offset mode, walked to the end: page 1 tells the number of pages, then the pages
  1, 2, ..., \<open>totalPages\<close> are asked for in turn and their documents concatenated.
\<close>

definition offset_walk ::
  "runtime \<Rightarrow> product list \<Rightarrow> query \<Rightarrow> string option \<Rightarrow> string option \<Rightarrow> product list" where
  "offset_walk rt coll query lmt srt =
     (case listProducts rt coll query (list_request_of (Some ''1'') lmt srt None) of
        Inl e \<Rightarrow> []
      | Inr (status, l, msg) \<Rightarrow>
          (case pagination l of
             OffsetMode n pg lm tp \<Rightarrow>
               concat (map (\<lambda>p. items_of (listProducts rt coll query
                                    (list_request_of (Some (decimal p)) lmt srt None)))
                           [1..<tp + 1])
           | CursorMode lm next has_more \<Rightarrow> []))"

text \<open>
  Following \<open>nextCursor\<close> until \<open>hasNextPage\<close> is false, from the cursor \<open>c\<close> (or from
  no cursor). An offset-mode response has neither field, so the walk ends there. The
  fuel bounds the number of requests; \<open>None\<close> means it ran out, or a request failed.
\<close>

fun follow ::
  "nat \<Rightarrow> runtime \<Rightarrow> product list \<Rightarrow> query \<Rightarrow> string option \<Rightarrow> string option
     \<Rightarrow> string option \<Rightarrow> product list option" where
  "follow 0 rt coll query lmt srt c = None"
| "follow (Suc fuel) rt coll query lmt srt c =
     (case listProducts rt coll query (list_request_of None lmt srt c) of
        Inl e \<Rightarrow> None
      | Inr (status, l, msg) \<Rightarrow>
          (case pagination l of
             OffsetMode n pg lm tp \<Rightarrow> Some (items l)
           | CursorMode lm next has_more \<Rightarrow>
               if has_more then map_option ((@) (items l)) (follow fuel rt coll query lmt srt next)
               else Some (items l)))"

text \<open>
  The walk a client can really make in cursor mode: the first page comes from a request
  without a cursor (served in offset mode), the cursor of its last document is built as
  \<^verbatim>\<open>encodeCursor\<close> builds it, and from there \<open>nextCursor\<close> is followed.
\<close>

definition seeded_walk ::
  "nat \<Rightarrow> runtime \<Rightarrow> product list \<Rightarrow> query \<Rightarrow> string option \<Rightarrow> product list option" where
  "seeded_walk fuel rt coll query lmt =
     (let first_page = items_of (listProducts rt coll query (list_request_of None lmt None None))
      in if first_page = [] then Some []
         else map_option ((@) first_page)
                (follow fuel rt coll query lmt None (Some (encodeCursor rt (last first_page)))))"

subsection \<open>A small catalog\<close>

definition older_product :: product where
  "older_product =
     \<lparr>p_id = 0x507f1f77bcf86cd799439011, createdAt = (2024, 2, 29, 23, 59, 58, 7),
      price = 10, rating = 4, category = 1, isfeatured = False, name = ''lamp''\<rparr>"

definition newer_product :: product where
  "newer_product =
     \<lparr>p_id = 0x507f1f77bcf86cd799439012, createdAt = (2024, 3, 1, 0, 0, 0, 0),
      price = 20, rating = 5, category = 1, isfeatured = True, name = ''desk''\<rparr>"

definition catalog :: "product list" where
  "catalog = [older_product, newer_product]"

text \<open>Two products created in the same millisecond.\<close>

definition twin_a :: product where
  "twin_a =
     \<lparr>p_id = 1, createdAt = (2024, 3, 1, 0, 0, 0, 0),
      price = 1, rating = 1, category = 1, isfeatured = False, name = ''a''\<rparr>"

definition twin_b :: product where
  "twin_b =
     \<lparr>p_id = 2, createdAt = (2024, 3, 1, 0, 0, 0, 0),
      price = 1, rating = 1, category = 1, isfeatured = False, name = ''b''\<rparr>"


section \<open>What the library promises, and a reference runtime\<close>

text \<open>
  A valid instant: calendar fields in range, within the 100 000 000 days either side of
  the epoch that a \<^verbatim>\<open>Date\<close> can hold.
\<close>

definition leap_year :: "int \<Rightarrow> bool" where
  "leap_year y = (y mod 4 = 0 \<and> (y mod 100 \<noteq> 0 \<or> y mod 400 = 0))"

definition days_in_month :: "int \<Rightarrow> nat \<Rightarrow> nat" where
  "days_in_month y m =
     (if m = 2 then (if leap_year y then 29 else 28)
      else if m = 4 \<or> m = 6 \<or> m = 9 \<or> m = 11 then 30 else 31)"

fun valid_instant :: "instant \<Rightarrow> bool" where
  "valid_instant (y, mo, d, h, mi, s, ms) =
     (1 \<le> mo \<and> mo \<le> 12 \<and> 1 \<le> d \<and> d \<le> days_in_month y mo
      \<and> h < 24 \<and> mi < 60 \<and> s < 60 \<and> ms < 1000
      \<and> (-271821, 4, 20, 0, 0, 0, 0) \<le> (y, mo, d, h, mi, s, ms)
      \<and> (y, mo, d, h, mi, s, ms) \<le> (275760, 9, 13, 0, 0, 0, 0))"

text \<open>A valid ObjectId: twelve bytes.\<close>

definition valid_oid :: "oid \<Rightarrow> bool" where
  "valid_oid i = (i < 2 ^ 96)"

text \<open>
  The contract of the library functions that the codec relies on: base64 and JSON decode
  what they encoded (and encode nothing but the empty string as the empty string),
  \<^verbatim>\<open>new Date\<close> reads back what \<^verbatim>\<open>toISOString\<close> printed, and the
  ObjectId constructor reads back what \<^verbatim>\<open>toString\<close> printed, which
  \<^verbatim>\<open>isValidObjectId\<close> accepts.
\<close>

definition conforms :: "runtime \<Rightarrow> bool" where
  "conforms rt =
     ((\<forall>s. base64_decode rt (base64_encode rt s) = s)
      \<and> (\<forall>s. s \<noteq> [] \<longrightarrow> base64_encode rt s \<noteq> [])
      \<and> (\<forall>v. JSON_stringify rt v \<noteq> [])
      \<and> (\<forall>t i. JSON_parse rt (JSON_stringify rt (cursor_payload rt t i))
                 = Some (cursor_payload rt t i))
      \<and> (\<forall>t. valid_instant t \<longrightarrow>
             toISOString rt t \<noteq> [] \<and> Date_of rt (JStr (toISOString rt t)) = Some t)
      \<and> (\<forall>i. valid_oid i \<longrightarrow>
             ObjectId_toString rt i \<noteq> []
             \<and> isValidObjectId rt (Some (JStr (ObjectId_toString rt i)))
             \<and> ObjectId_of rt (Some (JStr (ObjectId_toString rt i))) = Some i))"

subsection \<open>Base64 (RFC 4648, and the lenient decoding of Node)\<close>

text \<open>The alphabet: \<open>A\<close> to \<open>Z\<close>, \<open>a\<close> to \<open>z\<close>, \<open>0\<close> to \<open>9\<close>, \<open>+\<close> and \<open>/\<close>.\<close>

definition b64_char :: "nat \<Rightarrow> char" where
  "b64_char n =
     (if n < 26 then char_of (65 + n)
      else if n < 52 then char_of (71 + n)
      else if n < 62 then char_of (n - 4)
      else if n = 62 then CHR ''+'' else CHR ''/'')"

definition b64_value :: "char \<Rightarrow> nat option" where
  "b64_value c =
     (let n = (of_char c :: nat)
      in if 65 \<le> n \<and> n \<le> 90 then Some (n - 65)
         else if 97 \<le> n \<and> n \<le> 122 then Some (n - 71)
         else if 48 \<le> n \<and> n \<le> 57 then Some (n + 4)
         else if n = 43 \<or> n = 45 then Some 62
         else if n = 47 \<or> n = 95 then Some 63
         else None)"

fun ref_base64_encode :: "string \<Rightarrow> string" where
  "ref_base64_encode [] = []"
| "ref_base64_encode [a] =
     (let x = (of_char a :: nat)
      in [b64_char (x div 4), b64_char (x mod 4 * 16), CHR ''='', CHR ''=''])"
| "ref_base64_encode [a, b] =
     (let x = (of_char a :: nat); y = (of_char b :: nat)
      in [b64_char (x div 4), b64_char (x mod 4 * 16 + y div 16),
          b64_char (y mod 16 * 4), CHR ''=''])"
| "ref_base64_encode (a # b # c # rest) =
     (let x = (of_char a :: nat); y = (of_char b :: nat); z = (of_char c :: nat)
      in [b64_char (x div 4), b64_char (x mod 4 * 16 + y div 16),
          b64_char (y mod 16 * 4 + z div 64), b64_char (z mod 64)]
         @ ref_base64_encode rest)"

fun bytes_of_sextets :: "nat list \<Rightarrow> string" where
  "bytes_of_sextets (p # q # r # t # rest) =
     [char_of (p * 4 + q div 16), char_of (q mod 16 * 16 + r div 4), char_of (r mod 4 * 64 + t)]
     @ bytes_of_sextets rest"
| "bytes_of_sextets [p, q, r] = [char_of (p * 4 + q div 16), char_of (q mod 16 * 16 + r div 4)]"
| "bytes_of_sextets [p, q] = [char_of (p * 4 + q div 16)]"
| "bytes_of_sextets _ = []"

text \<open>Decoding stops at the first \<open>=\<close> and skips every character outside the alphabet.\<close>

definition sextets_of :: "string \<Rightarrow> nat list" where
  "sextets_of s = List.map_filter b64_value (takeWhile (\<lambda>c. c \<noteq> CHR ''='') s)"

definition ref_base64_decode :: "string \<Rightarrow> string" where
  "ref_base64_decode s = bytes_of_sextets (sextets_of s)"

subsection \<open>JSON, for flat objects of strings\<close>

fun escape :: "string \<Rightarrow> string" where
  "escape [] = []"
| "escape (c # cs) =
     (if c = CHR 0x22 \<or> c = CHR 0x5C then CHR 0x5C # c # escape cs else c # escape cs)"

definition quoted :: "string \<Rightarrow> string" where
  "quoted s = CHR 0x22 # escape s @ [CHR 0x22]"

fun members_text :: "(string \<times> json) list \<Rightarrow> string" where
  "members_text [] = []"
| "members_text ((k, v) # kvs) =
     quoted k @ '':'' @ (case v of JStr s \<Rightarrow> quoted s | _ \<Rightarrow> ''null'')
     @ (if kvs = [] then [] else '','' @ members_text kvs)"

definition ref_JSON_stringify :: "json \<Rightarrow> string" where
  "ref_JSON_stringify v =
     (case v of
        JObj kvs \<Rightarrow> ''{'' @ members_text kvs @ ''}''
      | JStr s \<Rightarrow> quoted s
      | _ \<Rightarrow> ''null'')"

text \<open>The text of a string after its opening quote: the string and what follows it.\<close>

fun string_body :: "string \<Rightarrow> (string \<times> string) option" where
  "string_body [] = None"
| "string_body (c # cs) =
     (if c = CHR 0x22 then Some ([], cs)
      else if c = CHR 0x5C then
        (case cs of
           [] \<Rightarrow> None
         | e # cs' \<Rightarrow>
             if e = CHR 0x22 \<or> e = CHR 0x5C
             then map_option (\<lambda>(r, rest). (e # r, rest)) (string_body cs')
             else None)
      else map_option (\<lambda>(r, rest). (c # r, rest)) (string_body cs))"

definition string_at :: "string \<Rightarrow> (string \<times> string) option" where
  "string_at s = (case s of [] \<Rightarrow> None | c # cs \<Rightarrow> if c = CHR 0x22 then string_body cs else None)"

text \<open>The members of an object up to its closing brace; the fuel bounds the recursion.\<close>

fun members_of :: "nat \<Rightarrow> string \<Rightarrow> (string \<times> json) list option" where
  "members_of 0 s = None"
| "members_of (Suc n) s =
     (case string_at s of
        None \<Rightarrow> None
      | Some (k, rest) \<Rightarrow>
          (case rest of
             [] \<Rightarrow> None
           | c # rest1 \<Rightarrow>
               if c \<noteq> CHR '':'' then None
               else
                 (case string_at rest1 of
                    None \<Rightarrow> None
                  | Some (v, rest2) \<Rightarrow>
                      if rest2 = ''}'' then Some [(k, JStr v)]
                      else
                        (case rest2 of
                           [] \<Rightarrow> None
                         | c2 # rest3 \<Rightarrow>
                             if c2 \<noteq> CHR '','' then None
                             else map_option ((#) (k, JStr v)) (members_of n rest3)))))"

definition ref_JSON_parse :: "string \<Rightarrow> json option" where
  "ref_JSON_parse s =
     (if s = ''{}'' then Some (JObj [])
      else
        (case s of
           [] \<Rightarrow> None
         | c # cs \<Rightarrow>
             if c = CHR ''{'' then map_option JObj (members_of (length cs) cs)
             else if c = CHR 0x22 then
               (case string_body cs of Some (v, []) \<Rightarrow> Some (JStr v) | _ \<Rightarrow> None)
             else None))"

subsection \<open>ISO 8601 instants and hexadecimal ids\<close>

fun digits :: "nat \<Rightarrow> nat \<Rightarrow> nat \<Rightarrow> string" where
  "digits b 0 n = []"
| "digits b (Suc w) n = digits b w (n div b) @ [digit_char (n mod b)]"

definition year_text :: "int \<Rightarrow> string" where
  "year_text y =
     (if 0 \<le> y \<and> y \<le> 9999 then digits 10 4 (nat y)
      else (if y < 0 then CHR ''-'' else CHR ''+'') # digits 10 6 (nat \<bar>y\<bar>))"

fun ref_toISOString :: "instant \<Rightarrow> string" where
  "ref_toISOString (y, mo, d, h, mi, s, ms) =
     year_text y @ ''-'' @ digits 10 2 mo @ ''-'' @ digits 10 2 d @ ''T'' @ digits 10 2 h
     @ '':'' @ digits 10 2 mi @ '':'' @ digits 10 2 s @ ''.'' @ digits 10 3 ms @ ''Z''"

text \<open>\<open>field w sep s\<close>: a number of \<open>w\<close> decimal digits, then the separator.\<close>

definition field :: "nat \<Rightarrow> char \<Rightarrow> string \<Rightarrow> (nat \<times> string) option" where
  "field w sep s =
     (if length s \<le> w \<or> s ! w \<noteq> sep then None
      else map_option (\<lambda>n. (n, drop (Suc w) s)) (number_of 10 0 (take w s)))"

definition year_field :: "string \<Rightarrow> (int \<times> string) option" where
  "year_field s =
     (case s of
        [] \<Rightarrow> None
      | c # cs \<Rightarrow>
          if c = CHR ''+'' then map_option (\<lambda>(n, r). (int n, r)) (field 6 CHR ''-'' cs)
          else if c = CHR ''-'' then
            (case field 6 CHR ''-'' cs of
               None \<Rightarrow> None
             | Some (n, r) \<Rightarrow> if n = 0 then None else Some (- int n, r))
          else map_option (\<lambda>(n, r). (int n, r)) (field 4 CHR ''-'' s))"

text \<open>
  The reference \<^verbatim>\<open>Date.parse\<close> reads the one format \<^verbatim>\<open>toISOString\<close> writes and takes
  a date that is not on the calendar as invalid.
\<close>

definition parse_iso :: "string \<Rightarrow> instant option" where
  "parse_iso s =
     Option.bind (year_field s) (\<lambda>(y, s1).
     Option.bind (field 2 CHR ''-'' s1) (\<lambda>(mo, s2).
     Option.bind (field 2 CHR ''T'' s2) (\<lambda>(d, s3).
     Option.bind (field 2 CHR '':'' s3) (\<lambda>(h, s4).
     Option.bind (field 2 CHR '':'' s4) (\<lambda>(mi, s5).
     Option.bind (field 2 CHR ''.'' s5) (\<lambda>(sec, s6).
     Option.bind (field 3 CHR ''Z'' s6) (\<lambda>(ms, s7).
       if s7 = [] \<and> valid_instant (y, mo, d, h, mi, sec, ms)
       then Some (y, mo, d, h, mi, sec, ms) else None)))))))"

definition ref_Date_of :: "json \<Rightarrow> instant option" where
  "ref_Date_of v = (case v of JStr s \<Rightarrow> parse_iso s | _ \<Rightarrow> None)"

definition ref_ObjectId_of :: "json option \<Rightarrow> oid option" where
  "ref_ObjectId_of v =
     (case v of
        Some (JStr s) \<Rightarrow> if length s = 24 then number_of 16 0 s else None
      | _ \<Rightarrow> None)"

definition ref_isValidObjectId :: "json option \<Rightarrow> bool" where
  "ref_isValidObjectId v = (ref_ObjectId_of v \<noteq> None)"

text \<open>\<^verbatim>\<open>Number(s)\<close> of a string, for decimal integers; the empty string is 0.\<close>

definition ref_ToNumber :: "json \<Rightarrow> number" where
  "ref_ToNumber v =
     (case v of
        JStr s \<Rightarrow>
          (let t = rev (dropWhile is_space (rev (dropWhile is_space s)));
               neg = (t \<noteq> [] \<and> hd t = CHR ''-'');
               u = (if t \<noteq> [] \<and> (hd t = CHR ''-'' \<or> hd t = CHR ''+'') then tl t else t)
           in if t = [] then Finite 0
              else if u = [] then NaN
              else
                (case number_of 10 0 u of
                   None \<Rightarrow> NaN
                 | Some n \<Rightarrow> Finite (if neg then - of_nat n else of_nat n)))
      | _ \<Rightarrow> NaN)"

text \<open>
  The reference runtime: a small instance of the library, enough to run the controllers
  on concrete requests. It accepts fewer inputs than Node does: \<^verbatim>\<open>Number\<close> of a string
  reads decimal integers only (no fraction, no exponent) and is NaN on arrays and
  objects, dates have the one format of \<^verbatim>\<open>toISOString\<close> with calendar fields in range
  (Node also reads other formats and carries 30 February over into March), ids are 24
  hexadecimal digits, and JSON texts are flat objects of strings without repeated keys.
  The general statements below hold for every runtime; the concrete runs use the reference
  runtime only on inputs where it does what Node does.
\<close>

definition reference :: runtime where
  "reference =
     \<lparr>ToNumber_object = ref_ToNumber,
      base64_encode = ref_base64_encode,
      base64_decode = ref_base64_decode,
      JSON_stringify = ref_JSON_stringify,
      JSON_parse = ref_JSON_parse,
      toISOString = ref_toISOString,
      Date_of = ref_Date_of,
      isValidObjectId = ref_isValidObjectId,
      ObjectId_of = ref_ObjectId_of,
      ObjectId_toString = digits 16 24\<rparr>"

section \<open>Properties of the category tree resolver\<close>

subsection \<open>The frontier after each expansion\<close>

text \<open>
  One expansion replaces the frontier by the ids of all categories whose parent is in it.
\<close>

lemma set_childIds_of:
  "set (childIds_of cats queue)
     = {cat_id c |c. c \<in> set cats \<and> (\<exists>p\<in>set queue. parentCategoryId c = Some p)}"
  by (auto simp: childIds_of_def split: option.splits)

lemma levels_Cons:
  "concat (map (\<lambda>k. (f ^^ k) q) [1..<Suc (Suc j)])
     = f q @ concat (map (\<lambda>k. (f ^^ k) (f q)) [1..<Suc j])"
proof -
  have "[1..<Suc (Suc j)] = 1 # map Suc [1..<Suc j]"
    by (simp add: upt_conv_Cons map_Suc_upt del: upt_Suc)
  then show ?thesis
    by (simp add: comp_def funpow_swap1 del: upt_Suc)
qed

lemma funpow_nonempty_shift:
  assumes "q \<noteq> []" and "\<forall>k\<le>j. (f ^^ k) (f q) \<noteq> []"
  shows "\<forall>k\<le>Suc j. (f ^^ k) q \<noteq> []"
proof (intro allI impI)
  fix k assume "k \<le> Suc j"
  show "(f ^^ k) q \<noteq> []"
  proof (cases k)
    case 0
    then show ?thesis using assms(1) by simp
  next
    case (Suc i)
    then show ?thesis
      using assms(2) \<open>k \<le> Suc j\<close> by (simp add: funpow_swap1)
  qed
qed

lemma descend_loop_levels:
  assumes "0 < m" and "depth \<le> m" and "queue \<noteq> []"
  shows "\<exists>j. depth + j \<le> m
           \<and> descend_loop cats (Some (enat m)) ids queue depth
               = Some (ids @ concat (map (\<lambda>k. (childIds_of cats ^^ k) queue) [1..<Suc j]),
                       depth + j)
           \<and> (\<forall>k\<le>j. (childIds_of cats ^^ k) queue \<noteq> [])
           \<and> (depth + j = m \<or> (childIds_of cats ^^ Suc j) queue = [])"
  using assms
proof (induction "m - depth" arbitrary: ids queue depth)
  case 0
  then have "depth_reached (Some (enat m)) depth" and "depth = m"
    by (simp_all add: depth_reached_def zero_enat_def)
  then show ?case
    using 0 by (intro exI [of _ 0]) (subst descend_loop.simps, simp)
next
  case (Suc n)
  have "depth < m"
    using Suc.hyps(2) by simp
  then have going: "\<not> depth_reached (Some (enat m)) depth"
    by (simp add: depth_reached_def)
  show ?case
  proof (cases "childIds_of cats queue = []")
    case True
    then show ?thesis
      using Suc.prems going by (intro exI [of _ 0]) (subst descend_loop.simps, simp)
  next
    case False
    have "n = m - (depth + 1)" and "depth + 1 \<le> m"
      using Suc.hyps(2) by simp_all
    from Suc.hyps(1) [OF this(1) Suc.prems(1) this(2) False]
    obtain j where j: "depth + 1 + j \<le> m"
      "descend_loop cats (Some (enat m)) (ids @ childIds_of cats queue) (childIds_of cats queue)
           (depth + 1)
         = Some ((ids @ childIds_of cats queue)
                   @ concat (map (\<lambda>k. (childIds_of cats ^^ k) (childIds_of cats queue)) [1..<Suc j]),
                 depth + 1 + j)"
      "\<forall>k\<le>j. (childIds_of cats ^^ k) (childIds_of cats queue) \<noteq> []"
      "depth + 1 + j = m \<or> (childIds_of cats ^^ Suc j) (childIds_of cats queue) = []"
      by blast
    have run: "descend_loop cats (Some (enat m)) ids queue depth
        = Some (ids @ concat (map (\<lambda>k. (childIds_of cats ^^ k) queue) [1..<Suc (Suc j)]),
                depth + Suc j)"
      using False going Suc.prems(3) j(2) levels_Cons [of "childIds_of cats" queue j]
      by (subst descend_loop.simps) (simp del: upt_Suc)
    have stop: "depth + Suc j = m \<or> (childIds_of cats ^^ Suc (Suc j)) queue = []"
      using j(4) by (simp add: funpow_swap1)
    show ?thesis
      using j(1) run funpow_nonempty_shift [OF Suc.prems(3) j(3)] stop
      by (intro exI [of _ "Suc j"]) simp
  qed
qed

text \<open>A bound that never stops the loop: none, \<open>0\<close>, or \<^verbatim>\<open>Infinity\<close>.\<close>

lemma never_reached:
  "maxDepth = None \<or> maxDepth = Some 0 \<or> maxDepth = Some \<infinity> \<Longrightarrow> \<not> depth_reached maxDepth depth"
  by (auto simp: depth_reached_def)

lemma descend_loop_unbounded:
  assumes "maxDepth = None \<or> maxDepth = Some 0 \<or> maxDepth = Some \<infinity>"
    and "queue \<noteq> []"
    and "\<forall>k\<le>j. (childIds_of cats ^^ k) queue \<noteq> []"
    and "(childIds_of cats ^^ Suc j) queue = []"
  shows "descend_loop cats maxDepth ids queue depth
           = Some (ids @ concat (map (\<lambda>k. (childIds_of cats ^^ k) queue) [1..<Suc j]), depth + j)"
  using assms(2,3,4)
proof (induction j arbitrary: ids queue depth)
  case 0
  then show ?case
    using never_reached [OF assms(1)] by (subst descend_loop.simps) simp
next
  case (Suc j)
  have next_level: "childIds_of cats queue \<noteq> []"
    using Suc.prems(2) [rule_format, of 1] by simp
  have "\<forall>k\<le>j. (childIds_of cats ^^ k) (childIds_of cats queue) \<noteq> []"
  proof (intro allI impI)
    fix k assume "k \<le> j"
    then show "(childIds_of cats ^^ k) (childIds_of cats queue) \<noteq> []"
      using Suc.prems(2) [rule_format, of "Suc k"] by (simp add: funpow_swap1)
  qed
  moreover have "(childIds_of cats ^^ Suc j) (childIds_of cats queue) = []"
    using Suc.prems(3) by (simp add: funpow_swap1)
  ultimately have "descend_loop cats maxDepth (ids @ childIds_of cats queue)
       (childIds_of cats queue) (depth + 1)
     = Some ((ids @ childIds_of cats queue)
               @ concat (map (\<lambda>k. (childIds_of cats ^^ k) (childIds_of cats queue)) [1..<Suc j]),
             depth + 1 + j)"
    by (rule Suc.IH [OF next_level])
  then show ?case
    using never_reached [OF assms(1)] next_level Suc.prems(1)
      levels_Cons [of "childIds_of cats" queue j]
    by (subst descend_loop.simps) (simp del: upt_Suc)
qed

text \<open>
  Without a bound that stops it, the loop does not return when no frontier is ever empty.
\<close>

lemma descend_loop_returns:
  assumes "descend_loop cats maxDepth ids queue depth = Some y"
  shows "\<not> ((maxDepth = None \<or> maxDepth = Some 0 \<or> maxDepth = Some \<infinity>)
            \<and> (\<forall>k. (childIds_of cats ^^ k) queue \<noteq> []))"
proof (rule descend_loop.raw_induct
    [where P = "\<lambda>cats maxDepth ids queue depth y.
       \<not> ((maxDepth = None \<or> maxDepth = Some 0 \<or> maxDepth = Some \<infinity>)
            \<and> (\<forall>k. (childIds_of cats ^^ k) queue \<noteq> []))", OF _ assms], goal_cases)
  case (1 loop cats maxDepth ids queue depth y)
  show ?case
  proof
    assume a: "(maxDepth = None \<or> maxDepth = Some 0 \<or> maxDepth = Some \<infinity>)
      \<and> (\<forall>k. (childIds_of cats ^^ k) queue \<noteq> [])"
    have q: "queue \<noteq> []" and c: "childIds_of cats queue \<noteq> []"
      using a [THEN conjunct2, rule_format, of 0] a [THEN conjunct2, rule_format, of 1]
      by simp_all
    have rest: "\<forall>k. (childIds_of cats ^^ k) (childIds_of cats queue) \<noteq> []"
    proof
      fix k show "(childIds_of cats ^^ k) (childIds_of cats queue) \<noteq> []"
        using a [THEN conjunct2, rule_format, of "Suc k"] by (simp add: funpow_swap1)
    qed
    have "loop cats maxDepth (ids @ childIds_of cats queue) (childIds_of cats queue)
        (depth + 1) = Some y"
      using 1(2) q c never_reached [OF a [THEN conjunct1]] by simp
    from 1(1) [OF this] show False
      using a rest by blast
  qed
qed

lemma descend_loop_diverges:
  assumes "maxDepth = None \<or> maxDepth = Some 0 \<or> maxDepth = Some \<infinity>"
    and "\<forall>k. (childIds_of cats ^^ k) queue \<noteq> []"
  shows "descend_loop cats maxDepth ids queue depth = None"
  using descend_loop_returns [of cats maxDepth ids queue depth] assms
  by (cases "descend_loop cats maxDepth ids queue depth") auto


lemma descendants_by_level:
  assumes "0 < m"
  shows "\<exists>d\<le>m. getDescendantCategoryIds cats ancestorId (Some (enat m)) includeSelf
             = Some ((if includeSelf then [ancestorId] else [])
                       @ concat (map (\<lambda>k. (childIds_of cats ^^ k) [ancestorId]) [1..<Suc d]), d)
           \<and> (\<forall>k\<le>d. (childIds_of cats ^^ k) [ancestorId] \<noteq> [])
           \<and> (d = m \<or> (childIds_of cats ^^ Suc d) [ancestorId] = [])"
  using descend_loop_levels [OF assms, of 0 "[ancestorId]" cats
      "if includeSelf then [ancestorId] else []"]
  unfolding getDescendantCategoryIds_def by auto

lemma descendants_unbounded:
  assumes "maxDepth = None \<or> maxDepth = Some 0 \<or> maxDepth = Some \<infinity>"
  shows "(\<forall>k\<le>d. (childIds_of cats ^^ k) [ancestorId] \<noteq> []) \<Longrightarrow>
         (childIds_of cats ^^ Suc d) [ancestorId] = [] \<Longrightarrow>
         getDescendantCategoryIds cats ancestorId maxDepth includeSelf
           = Some ((if includeSelf then [ancestorId] else [])
                     @ concat (map (\<lambda>k. (childIds_of cats ^^ k) [ancestorId]) [1..<Suc d]), d)"
    and "(\<forall>k. (childIds_of cats ^^ k) [ancestorId] \<noteq> []) \<Longrightarrow>
         getDescendantCategoryIds cats ancestorId maxDepth includeSelf = None"
  using descend_loop_unbounded [OF assms, of "[ancestorId]" d cats
      "if includeSelf then [ancestorId] else []" 0]
    descend_loop_diverges [OF assms, of cats "[ancestorId]"
      "if includeSelf then [ancestorId] else []" 0]
  unfolding getDescendantCategoryIds_def by simp_all

text \<open>
  The runs the specification names, on the chain A -> B -> C -> D, and one on a tree
  that forks, where both children of the root and both grandchildren are found.
\<close>

lemma chain_runs:
  "getDescendantCategoryIds chain_ABCD 1 (Some 2) False = Some ([2, 3], 2)"
  "getDescendantCategoryIds chain_ABCD 1 None True = Some ([1, 2, 3, 4], 3)"
  "getDescendantCategoryIds chain_ABCD 4 None False = Some ([], 0)"
  "getDescendantCategoryIds forked 1 (Some 5) False = Some ([2, 3, 4, 5], 2)"
  "getDescendantCategoryIds forked 1 (Some 1) False = Some ([2, 3], 1)"
  by (simp_all add: getDescendantCategoryIds_def descend_loop.simps chain_ABCD_def forked_def
      childIds_of_def depth_reached_def zero_enat_def one_enat_def
      numeral_eq_enat)

subsection \<open>Whole numbers as doubles\<close>

lemma bit_length_le: "n < 2 ^ k \<Longrightarrow> bit_length n \<le> k"
proof (induction k arbitrary: n)
  case 0
  then show ?case by (subst bit_length.simps) simp
next
  case (Suc k)
  then have "n div 2 < 2 ^ k" by simp
  then have "bit_length (n div 2) \<le> k" by (rule Suc.IH)
  then show ?case by (subst bit_length.simps) simp
qed

lemma bit_length_gr: "2 ^ k \<le> n \<Longrightarrow> k < bit_length n"
proof (induction k arbitrary: n)
  case 0
  then show ?case by (subst bit_length.simps) simp
next
  case (Suc k)
  have "(0::nat) < 2 ^ Suc k" by simp
  with Suc.prems have "n \<noteq> 0" by linarith
  from Suc.prems have "2 ^ k \<le> n div 2" by simp
  then have "k < bit_length (n div 2)" by (intro Suc.IH)
  then show ?case using \<open>n \<noteq> 0\<close> by (subst bit_length.simps) simp
qed

lemma bit_length_lower: "n \<noteq> 0 \<Longrightarrow> 2 ^ (bit_length n - 1) \<le> n"
proof (rule ccontr)
  assume "n \<noteq> 0" and "\<not> 2 ^ (bit_length n - 1) \<le> n"
  then have "bit_length n \<le> bit_length n - 1"
    by (intro bit_length_le) simp
  moreover have "0 < bit_length n"
    using \<open>n \<noteq> 0\<close> by (subst bit_length.simps) simp
  ultimately show False by simp
qed

lemma nearest_double_small: "\<bar>x\<bar> < 2 ^ 53 \<Longrightarrow> nearest_double x = x"
proof -
  assume "\<bar>x\<bar> < 2 ^ 53"
  then have "nat \<bar>x\<bar> < 2 ^ 53"
    by (simp add: nat_less_iff)
  then have "bit_length (nat \<bar>x\<bar>) - 53 = 0"
    using bit_length_le by simp
  then show ?thesis
    by (simp add: nearest_double_def Let_def) (simp add: sgn_if)
qed

lemma nearest_double_pos: "1 \<le> x \<Longrightarrow> 1 \<le> nearest_double x"
proof -
  assume x: "1 \<le> x"
  let ?a = "nat \<bar>x\<bar>" and ?e = "bit_length (nat \<bar>x\<bar>) - 53"
  have a: "?a \<noteq> 0" using x by simp
  have "(2::nat) ^ ?e \<le> 2 ^ (bit_length ?a - 1)"
    by (rule power_increasing) simp_all
  also have "\<dots> \<le> ?a"
    using a by (rule bit_length_lower)
  finally have "1 \<le> ?a div 2 ^ ?e"
    by (simp add: div_greater_zero_iff Suc_le_eq)
  then have "1 \<le> (if 2 ^ ?e < 2 * (?a mod 2 ^ ?e) \<or> (2 * (?a mod 2 ^ ?e) = 2 ^ ?e \<and> odd (?a div 2 ^ ?e))
                   then ?a div 2 ^ ?e + 1 else ?a div 2 ^ ?e) * 2 ^ ?e"
    by (simp add: Suc_le_eq)
  then have "1 \<le> int ((if 2 ^ ?e < 2 * (?a mod 2 ^ ?e) \<or> (2 * (?a mod 2 ^ ?e) = 2 ^ ?e \<and> odd (?a div 2 ^ ?e))
                   then ?a div 2 ^ ?e + 1 else ?a div 2 ^ ?e) * 2 ^ ?e)"
    by linarith
  moreover have "sgn x = 1"
    using x by simp
  ultimately show ?thesis
    unfolding nearest_double_def Let_def by (simp only: mult_1)
qed

lemma nearest_double_rounds: "nearest_double (2 ^ 53 + 1) = 2 ^ 53"
proof -
  have "bit_length (2 ^ 53 + 1) \<le> 54" "53 < bit_length (2 ^ 53 + 1)"
    by (rule bit_length_le, simp) (rule bit_length_gr, simp)
  then have "bit_length (2 ^ 53 + 1) = 54"
    by simp
  moreover have "nat \<bar>2 ^ 53 + 1 :: int\<bar> = 2 ^ 53 + 1"
    by simp
  ultimately show ?thesis
    unfolding nearest_double_def Let_def by (simp only:) simp
qed

subsection \<open>The bound that the callers pass\<close>

lemma parsePositiveInt_positive:
  "parsePositiveInt value label = Inr (Some b) \<Longrightarrow> 1 \<le> b"
proof -
  assume "parsePositiveInt value label = Inr (Some b)"
  then obtain parsed where "\<not> parsed < 1" and "b = parseInt_number parsed"
    by (auto simp: parsePositiveInt_def split: option.splits if_splits)
  moreover from this have "Suc 0 \<le> nat (nearest_double parsed)"
    using nearest_double_pos [of parsed] by linarith
  ultimately show ?thesis
    by (simp add: parseInt_number_def one_enat_def)
qed

lemma number_of_nines:
  "number_of 10 acc (replicate n CHR ''9'') = Some (acc * 10 ^ n + (10 ^ n - 1))"
proof (induction n arbitrary: acc)
  case 0
  then show ?case by simp
next
  case (Suc n)
  have "(1::nat) \<le> 10 ^ n" by simp
  then have "(acc * 10 + 9) * 10 ^ n + (10 ^ n - 1) = acc * (10 * 10 ^ n) + (10 * 10 ^ n - 1)"
    by (simp add: algebra_simps)
  then show ?case
    by (simp add: Suc.IH digit_value_def)
qed

lemma parseInt10_nines:
  "0 < n \<Longrightarrow> parseInt10 (Some (replicate n CHR ''9'')) = Some (int (10 ^ n - 1))"
  by (simp add: parseInt10_def Let_def is_space_def digit_value_def number_of_nines)

lemma nines_infinite:
  "parsePositiveInt (Some (replicate 400 CHR ''9'')) ''maxDepth'' = Inr (Some \<infinity>)"
proof -
  have "(2::int) ^ 1024 - 2 ^ 970 \<le> int (10 ^ 400 - 1)"
    by simp
  moreover have "\<not> int (10 ^ 400 - 1) < 1"
    by simp
  ultimately show ?thesis
    by (simp only: parsePositiveInt_def parseInt10_nines parseInt_number_def) simp
qed

lemma three_parsed: "parsePositiveInt (Some ''3'') ''maxDepth'' = Inr (Some 3)"
proof -
  have "parseInt10 (Some ''3'') = Some 3"
    by (simp add: parseInt10_def is_space_def digit_value_def Let_def)
  then show ?thesis
    by (simp add: parsePositiveInt_def parseInt_number_def nearest_double_small numeral_eq_enat)
qed

lemma self_loop_levels: "(childIds_of self_loop ^^ k) [7] = [7]"
  by (induction k) (simp_all add: childIds_of_def self_loop_def)

text \<open>
  C9. The claim fails for a \<open>maxDepth\<close> that \<^verbatim>\<open>parseInt\<close> reads as \<^verbatim>\<open>Infinity\<close>, such
  as a run of 400 nines. \<^verbatim>\<open>parsePositiveInt\<close> lets it through, since it is not NaN and not
  below 1, although its own message asks for a positive integer. In the resolver the test
  \<^verbatim>\<open>depth >= maxDepth\<close> then never holds, and on a category that is its own parent the
  loop does not return: \<open>maxDepth\<close> was supplied and the walk is not bounded. With the
  bound 3 the same walk stops after three expansions.
\<close>

theorem infinite_maxDepth_unbounded:
  "parsePositiveInt (Some (replicate 400 CHR ''9'')) ''maxDepth'' = Inr (Some \<infinity>)
   \<and> getDescendantCategoryIds self_loop 7 (Some \<infinity>) True = None
   \<and> descendants_for self_loop 7 (Some (replicate 400 CHR ''9'')) None = Inr None
   \<and> descendants_for self_loop 7 (Some ''3'') None = Inr (Some ([7, 7, 7, 7], 3))"
proof -
  have loop: "getDescendantCategoryIds self_loop 7 (Some \<infinity>) True = None"
    by (rule descendants_unbounded(2)) (simp_all add: self_loop_levels)
  have three: "getDescendantCategoryIds self_loop 7 (Some 3) True = Some ([7, 7, 7, 7], 3)"
    by (simp add: getDescendantCategoryIds_def descend_loop.simps self_loop_def
        childIds_of_def depth_reached_def numeral_eq_enat zero_enat_def)
  show ?thesis
    using loop three by (simp add: descendants_for_def nines_infinite three_parsed)
qed


section \<open>The reference runtime keeps the library's promises\<close>


lemma char_of_eq_nat: "(char_of (m::nat) = c) = (m mod 256 = of_char c)"
  by (metis char_of_char of_char_of)

lemma char_ofI: "n = of_char c \<Longrightarrow> char_of (n::nat) = c"
  by simp

lemma b64_value_char:
  assumes "n < 64"
  shows "b64_value (b64_char n) = Some n" and "b64_char n \<noteq> CHR ''=''"
  using assms by (auto simp: b64_value_def b64_char_def Let_def char_of_eq_nat)

lemma sextet_bounds:
  fixes x y z :: nat
  shows "x < 256 \<Longrightarrow> x div 4 < 64"
    and "y < 256 \<Longrightarrow> x mod 4 * 16 + y div 16 < 64"
    and "z < 256 \<Longrightarrow> y mod 16 * 4 + z div 64 < 64"
    and "z mod 64 < 64" and "x mod 4 * 16 < 64" and "y mod 16 * 4 < 64"
  by auto

lemma sextet_bytes:
  fixes x y z :: nat
  assumes "x < 256" "y < 256" "z < 256"
  shows "x div 4 * 4 + (x mod 4 * 16 + y div 16) div 16 = x"
    "(x mod 4 * 16 + y div 16) mod 16 * 16 + (y mod 16 * 4 + z div 64) div 4 = y"
    "(y mod 16 * 4 + z div 64) mod 4 * 64 + z mod 64 = z"
    "x div 4 * 4 + (x mod 4 * 16) div 16 = x"
    "(x mod 4 * 16 + y div 16) mod 16 * 16 + (y mod 16 * 4) div 4 = y"
  using assms by auto

lemma byte_arith:
  fixes x :: nat
  assumes "x < 256"
  shows "x div 16 div 16 = 0" "x div 16 mod 16 * 16 + x mod 16 = x"
    "x div 64 div 4 = 0" "x div 64 mod 4 * 64 + x mod 64 = x"
  using assms by auto

lemmas char_arith = byte_arith [OF nat_of_char_less_256]

lemma sextets_of_Cons:
  "n < 64 \<Longrightarrow> sextets_of (b64_char n # s) = n # sextets_of s"
  by (simp add: sextets_of_def List.map_filter_def b64_value_char)

lemma sextets_of_pad: "sextets_of (CHR ''='' # s) = []"
  by (simp add: sextets_of_def List.map_filter_def)

lemma sextets_of_Nil: "sextets_of [] = []"
  by (simp add: sextets_of_def List.map_filter_def)

lemma ref_base64_roundtrip: "ref_base64_decode (ref_base64_encode s) = s"
proof -
  have "bytes_of_sextets (sextets_of (ref_base64_encode s)) = s"
  proof (induction s rule: ref_base64_encode.induct)
    case 1
    show ?case by (simp add: sextets_of_Nil)
  next
    case (2 a)
    show ?case
      using nat_of_char_less_256 [of a]
      by (auto simp: Let_def sextets_of_Cons sextets_of_pad sextet_bounds char_arith intro!: char_ofI)
  next
    case (3 a b)
    show ?case
      using nat_of_char_less_256 [of a] nat_of_char_less_256 [of b]
      by (auto simp: Let_def sextets_of_Cons sextets_of_pad sextet_bounds char_arith intro!: char_ofI)
  next
    case (4 a b c rest)
    then show ?case
      using nat_of_char_less_256 [of a] nat_of_char_less_256 [of b] nat_of_char_less_256 [of c]
      by (auto simp: Let_def sextets_of_Cons sextet_bounds char_arith intro!: char_ofI)
  qed
  then show ?thesis by (simp add: ref_base64_decode_def)
qed


lemma string_body_escape: "string_body (escape s @ CHR 0x22 # rest) = Some (s, rest)"
  by (induction s) auto

lemma string_at_quoted: "string_at (quoted s @ rest) = Some (s, rest)"
  by (simp add: string_at_def quoted_def string_body_escape)

lemma members_of_last:
  "members_of (Suc n) (quoted k @ CHR '':'' # quoted v @ ''}'') = Some [(k, JStr v)]"
  by (simp add: string_at_quoted)

lemma members_of_more:
  "members_of (Suc n) (quoted k @ CHR '':'' # quoted v @ CHR '','' # rest)
     = map_option ((#) (k, JStr v)) (members_of n rest)"
  by (simp add: string_at_quoted)

lemma members_of_two:
  "members_of (Suc (Suc n))
     (quoted k1 @ CHR '':'' # quoted a @ CHR '','' # quoted k2 @ CHR '':'' # quoted b @ ''}'')
   = Some [(k1, JStr a), (k2, JStr b)]"
  by (simp only: members_of_more members_of_last option.map)

lemma ref_JSON_parse_object:
  "cs \<noteq> ''}'' \<Longrightarrow> ref_JSON_parse (CHR ''{'' # cs) = map_option JObj (members_of (length cs) cs)"
  by (simp add: ref_JSON_parse_def)

lemma ref_JSON_roundtrip:
  "ref_JSON_parse (ref_JSON_stringify (JObj [(k1, JStr a), (k2, JStr b)]))
     = Some (JObj [(k1, JStr a), (k2, JStr b)])"
proof -
  let ?cs = "quoted k1 @ CHR '':'' # quoted a @ CHR '','' # quoted k2 @ CHR '':'' # quoted b @ ''}''"
  have shape: "ref_JSON_stringify (JObj [(k1, JStr a), (k2, JStr b)]) = CHR ''{'' # ?cs"
    by (simp add: ref_JSON_stringify_def)
  obtain n where n: "length ?cs = Suc (Suc n)"
    by (simp add: quoted_def)
  have ne: "?cs \<noteq> ''}''"
    by (simp add: quoted_def)
  have "ref_JSON_parse (CHR ''{'' # ?cs) = map_option JObj (members_of (Suc (Suc n)) ?cs)"
    using ref_JSON_parse_object [OF ne] by (simp only: n)
  also have "\<dots> = Some (JObj [(k1, JStr a), (k2, JStr b)])"
    by (simp only: members_of_two option.map)
  finally show ?thesis
    by (simp only: shape)
qed

lemma digit_value_char: "d < b \<Longrightarrow> b \<le> 16 \<Longrightarrow> digit_value b (digit_char d) = Some d"
  by (auto simp: digit_value_def digit_char_def Let_def)

lemma digit_char_no_sign:
  "d < 16 \<Longrightarrow> digit_char d \<noteq> CHR ''+'' \<and> digit_char d \<noteq> CHR ''-''"
  by (auto simp: digit_char_def char_of_eq_nat)

lemma number_of_append:
  "number_of b acc (xs @ ys) = Option.bind (number_of b acc xs) (\<lambda>a. number_of b a ys)"
  by (induction xs arbitrary: acc) (auto split: option.splits)

lemma length_digits: "length (digits b w n) = w"
  by (induction w arbitrary: n) auto

lemma number_of_digits:
  assumes "1 < b" "b \<le> 16"
  shows "n < b ^ w \<Longrightarrow> number_of b acc (digits b w n) = Some (acc * b ^ w + n)"
proof (induction w arbitrary: n)
  case 0
  then show ?case by simp
next
  case (Suc w)
  have "n div b < b ^ w"
    using Suc.prems assms by (simp add: less_mult_imp_div_less mult.commute)
  from Suc.IH [OF this] have "number_of b acc (digits b w (n div b)) = Some (acc * b ^ w + n div b)" .
  moreover have "digit_value b (digit_char (n mod b)) = Some (n mod b)"
    using assms by (intro digit_value_char) auto
  moreover have "(acc * b ^ w + n div b) * b + n mod b = acc * b ^ Suc w + n"
    by (simp add: algebra_simps)
  ultimately show ?case
    by (simp add: number_of_append)
qed

lemma field_digits:
  "n < 10 ^ w \<Longrightarrow> field w sep (digits 10 w n @ sep # rest) = Some (n, rest)"
  by (simp add: field_def length_digits nth_append number_of_digits)

lemma digits_first:
  "0 < b \<Longrightarrow> 0 < w \<Longrightarrow> \<exists>d r. d < b \<and> digits b w n = digit_char d # r"
proof (induction w arbitrary: n)
  case 0
  then show ?case by simp
next
  case (Suc w)
  show ?case
  proof (cases "w = 0")
    case True
    have "n mod b < b" using Suc.prems by simp
    then show ?thesis using True by auto
  next
    case False
    with Suc.IH [of "n div b"] Suc.prems obtain d r where
      "d < b" "digits b w (n div b) = digit_char d # r" by auto
    then show ?thesis by auto
  qed
qed

lemma year_field_text:
  assumes "- 1000000 < y" "y < 1000000"
  shows "year_field (year_text y @ CHR ''-'' # rest) = Some (y, rest)"
proof (cases "0 \<le> y \<and> y \<le> 9999")
  case True
  obtain d r where d: "d < 10" "digits 10 4 (nat y) = digit_char d # r"
    using digits_first [of 10 4 "nat y"] by auto
  have sign: "digit_char d \<noteq> CHR ''+''" "digit_char d \<noteq> CHR ''-''"
    using digit_char_no_sign [of d] d(1) by auto
  have "nat y < 10 ^ 4" using True by (simp, linarith)
  from field_digits [OF this, of "CHR ''-''" rest]
  have "field 4 CHR ''-'' (digit_char d # r @ CHR ''-'' # rest) = Some (nat y, rest)"
    by (simp add: d(2))
  then show ?thesis
    using True sign by (simp add: year_field_def year_text_def d(2))
next
  case False
  have "nat \<bar>y\<bar> < 10 ^ 6" using assms by (auto simp: nat_less_iff abs_less_iff)
  from field_digits [OF this, of "CHR ''-''" rest]
  show ?thesis
    using False assms by (auto simp: year_field_def year_text_def)
qed

lemma parse_iso_roundtrip:
  assumes "valid_instant t"
  shows "parse_iso (ref_toISOString t) = Some t"
proof -
  obtain y mo d h mi s ms where t: "t = (y, mo, d, h, mi, s, ms)"
    by (cases t) 
  have "d \<le> 31"
    using assms unfolding t by (auto simp: days_in_month_def split: if_splits)
  then have b: "mo < 10 ^ 2" "d < 10 ^ 2" "h < 10 ^ 2" "mi < 10 ^ 2" "s < 10 ^ 2" "ms < 10 ^ 3"
    using assms unfolding t by auto
  have y: "- 1000000 < y" "y < 1000000"
    using assms unfolding t by auto
  show ?thesis
    using assms unfolding t
    by (simp add: parse_iso_def year_field_text [OF y] field_digits [OF b(1)]
        field_digits [OF b(2)] field_digits [OF b(3)] field_digits [OF b(4)]
        field_digits [OF b(5)] field_digits [OF b(6)] del: valid_instant.simps)
qed

lemma ref_ObjectId_roundtrip:
  assumes "valid_oid i"
  shows "ref_ObjectId_of (Some (JStr (digits 16 24 i))) = Some i"
proof -
  have "i < 16 ^ 24" using assms by (simp add: valid_oid_def)
  then show ?thesis
    by (simp add: ref_ObjectId_of_def length_digits number_of_digits)
qed

lemma reference_conforms: "conforms reference"
  unfolding conforms_def
proof (intro conjI allI impI)
  show "base64_decode reference (base64_encode reference s) = s" for s
    by (simp add: reference_def ref_base64_roundtrip)
  show "base64_encode reference s \<noteq> []" if "s \<noteq> []" for s
    using that by (cases s rule: ref_base64_encode.cases) (simp_all add: reference_def Let_def)
  show "JSON_stringify reference v \<noteq> []" for v
    by (cases v) (simp_all add: reference_def ref_JSON_stringify_def quoted_def)
  show "JSON_parse reference (JSON_stringify reference (cursor_payload reference t i))
          = Some (cursor_payload reference t i)" for t i
    by (simp add: reference_def cursor_payload_def ref_JSON_roundtrip)
  show "toISOString reference t \<noteq> []" for t
    by (cases t) (simp add: reference_def)
  show "Date_of reference (JStr (toISOString reference t)) = Some t" if "valid_instant t" for t
    using that by (simp add: reference_def ref_Date_of_def parse_iso_roundtrip)
  show "ObjectId_toString reference i \<noteq> []" for i
    using length_digits [of 16 24 i] by (auto simp: reference_def)
  show "isValidObjectId reference (Some (JStr (ObjectId_toString reference i)))"
    if "valid_oid i" for i
    using that by (simp add: reference_def ref_isValidObjectId_def ref_ObjectId_roundtrip)
  show "ObjectId_of reference (Some (JStr (ObjectId_toString reference i))) = Some i"
    if "valid_oid i" for i
    using that by (simp add: reference_def ref_ObjectId_roundtrip)
qed



section \<open>Properties of the cart controller\<close>


lemma floor_seven_halves: "\<lfloor>(7::rat) / 2\<rfloor> = 3" by (rule floor_unique) simp_all
lemma seven_halves: "quantity_or_1 reference (Some (JNum (Finite (7 / 2)))) = 3"
  by (simp add: quantity_or_1_def normalizeQuantity_def Number_def floor_seven_halves)

lemma ref_id: "ref_ObjectId_of (Some (JStr ''507f1f77bcf86cd799439011'')) = Some 0x507f1f77bcf86cd799439011"
  by (simp add: ref_ObjectId_of_def digit_value_def)

lemma ref_id_valid: "isValidObjectId reference (Some (JStr ''507f1f77bcf86cd799439011''))"
  "ObjectId_of reference (Some (JStr ''507f1f77bcf86cd799439011'')) = Some 0x507f1f77bcf86cd799439011"
  by (simp_all add: reference_def ref_isValidObjectId_def ref_id)

text \<open>
  C10, as the claim states it, fails for \<^verbatim>\<open>null\<close>: \<^verbatim>\<open>Number(null)\<close> is 0, a finite
  number, so the quantity is not defaulted to 1 but normalized to 0 and rejected.
\<close>

theorem quantity_null_rejected:
  "quantity_or_1 reference (Some JNull) = 0
   \<and> addToCartItemController reference quiet (add_request_of (Some JNull)) shop
       = (Inl (ApiError 400 ''Quantity must be at least 1''), shop)"
  by (simp add: addToCartItemController_def quantity_or_1_def normalizeQuantity_def Number_def
      ref_id_valid add_request_of_def)

lemma quiet_add_seven_halves:
  "addToCartItemController reference quiet (add_request_of (Some (JNum (Finite (7 / 2))))) shop
     = (Inr (201, \<lparr>item_id = 100, userId = 1, productId = 0x507f1f77bcf86cd799439011, quantity = 3\<rparr>, ''Item added to cart''),
        \<lparr>products = [(0x507f1f77bcf86cd799439011, 5)],
         cart = [\<lparr>item_id = 100, userId = 1, productId = 0x507f1f77bcf86cd799439011, quantity = 3\<rparr>],
         shopping_cart = [(1, [100])], next_id = 101\<rparr>)"
  by (simp add: addToCartItemController_def seven_halves
      ref_id_valid addOrIncrement_def addOrIncrement_run_def quiet_def shop_def findById_def
      findOne_def create_def addToSet_def add_request_of_def Let_def)

text \<open>
  C3, as the claim states it, fails: when the re-read after the duplicate-key conflict
  finds no record, the controller answers 409 \<open>Cart item already exists\<close>, a conflict
  error, not an internal error.
\<close>

theorem race_conflict:
  "fst (addToCartItemController reference race (add_request_of None) shop)
     = Inl (ApiError 409 ''Cart item already exists'')"
  by (simp add: addToCartItemController_def quantity_or_1_def normalizeQuantity_def Number_def
      ref_id_valid addOrIncrement_def addOrIncrement_run_def recover_def race_def shop_def
      findById_def findOne_def create_def addToSet_def add_request_of_def Let_def)


text \<open>
  C10, amended. A fractional number is floored. A quantity that is missing, or that
  \<^verbatim>\<open>Number\<close> turns into NaN or an infinity, defaults to 1. \<^verbatim>\<open>null\<close>, \<^verbatim>\<open>false\<close> and
  the empty string do not: \<^verbatim>\<open>Number\<close> turns them into 0, the normalized quantity is 0,
  and the request is rejected. A normalized quantity below 1 is rejected with a 400 error
  and the store is untouched: no store operation has run. Otherwise, for a valid product
  id, the controller goes on with the normalized quantity.
\<close>

theorem quantity_normalized:
  "quantity_or_1 rt (Some (JNum (Finite q))) = \<lfloor>q\<rfloor>
   \<and> quantity_or_1 rt None = 1
   \<and> (Number rt v \<in> {NaN, PosInfinity, NegInfinity} \<longrightarrow> quantity_or_1 rt v = 1)
   \<and> quantity_or_1 rt (Some JNull) = 0
   \<and> quantity_or_1 rt (Some (JBool False)) = 0
   \<and> quantity_or_1 rt (Some (JStr [])) = 0
   \<and> (body_quantity req \<in> {Some JNull, Some (JBool False), Some (JStr [])} \<longrightarrow>
        (\<exists>msg. addToCartItemController rt env req s = (Inl (ApiError 400 msg), s)))
   \<and> (quantity_or_1 rt (body_quantity req) < 1 \<longrightarrow>
        (\<exists>msg. addToCartItemController rt env req s = (Inl (ApiError 400 msg), s)))
   \<and> (1 \<le> quantity_or_1 rt (body_quantity req) \<longrightarrow>
        isValidObjectId rt (body_productId req) \<longrightarrow>
        ObjectId_of rt (body_productId req) = Some pid \<longrightarrow>
        addToCartItemController rt env req s
          = addOrIncrement env (req_user req) pid (quantity_or_1 rt (body_quantity req)) s)"
  by (auto simp: addToCartItemController_def quantity_or_1_def normalizeQuantity_def Number_def
      Let_def)

lemma others_upto_numeral:
  "others_upto env (numeral k) s = others env (numeral k) (others_upto env (pred_numeral k) s)"
  by (simp add: numeral_eq_Suc)

lemma others_upto_1: "others_upto env (Suc 0) s = others env (Suc 0) s"
  by simp

text \<open>
  C3, amended. After a duplicate-key conflict of the create (the first read found
  nothing and the quantity fits the stock) the controller reads the relation once more.
  If it finds none, it fails with 409 \<open>Cart item already exists\<close> and the store is as
  the other requests left it; if it finds one, it increments it once, or fails with the
  capacity error when the sum (as JavaScript adds, \<open>add_numbers\<close>) exceeds the stock.
  Nothing is retried after that.
\<close>

theorem addOrIncrement_conflict:
  assumes "findById (others_upto env 1 s) pid = Some stock"
    and "findOne (others_upto env 2 s) uid pid = None"
    and "q \<le> stock"
    and "create (create_fault env) (others_upto env 3 s) uid pid q = Inl DuplicateKey"
  shows "(findOne (others_upto env 4 s) uid pid = None \<longrightarrow>
            addOrIncrement env uid pid q s
              = (Inl (ApiError 409 ''Cart item already exists''), others_upto env 4 s))
       \<and> (\<forall>c. findOne (others_upto env 4 s) uid pid = Some c \<longrightarrow>
            stock < add_numbers (quantity c) q \<longrightarrow>
            addOrIncrement env uid pid q s = (Inl exceeds_stock, others_upto env 4 s))
       \<and> (\<forall>c s6. findOne (others_upto env 4 s) uid pid = Some c \<longrightarrow>
            add_numbers (quantity c) q \<le> stock \<longrightarrow>
            save (others_upto env 5 s) (c\<lparr>quantity := add_numbers (quantity c) q\<rparr>) = Some s6 \<longrightarrow>
            addOrIncrement env uid pid q s
              = (Inr (200, c\<lparr>quantity := add_numbers (quantity c) q\<rparr>,
                      ''Cart item quantity updated''), s6))"
  using assms
  by (simp add: addOrIncrement_def addOrIncrement_run_def recover_def Let_def others_upto_numeral)

text \<open>
  C4. With \<open>stock\<close> the \<^verbatim>\<open>countInstock\<close> that the controller read: whatever the other
  requests do and whichever write fails, every cart item this request writes, by the
  create or by a save, has a quantity of at most \<open>stock\<close>; a success returns the item
  written last; and when the request wrote nothing the store is as the other requests left
  it. On each path the check stands before the write: for an existing item, for a fresh
  create, for the retry after a conflict of the create and for the retry after a conflict
  of the update of the user, a quantity above \<open>stock\<close> gives the capacity error, and the
  store is the one that the check read, with nothing written after it. When the update of
  the user fails otherwise, the answer is 500 and the item created stays.
\<close>

theorem addOrIncrement_capacity:
  assumes "findById (others_upto env 1 s) pid = Some stock"
    and "addOrIncrement_run env uid pid q s = (r, s', written)"
  shows "(\<forall>w\<in>set written. quantity w \<le> stock)
       \<and> (\<forall>st item msg. r = Inr (st, item, msg) \<longrightarrow> written \<noteq> [] \<and> item = last written)
       \<and> (written = [] \<longrightarrow> (\<exists>k\<le>5. s' = others_upto env k s))
       \<and> (\<forall>e. findOne (others_upto env 2 s) uid pid = Some e \<longrightarrow>
            stock < add_numbers (quantity e) q \<longrightarrow>
            r = Inl exceeds_stock \<and> s' = others_upto env 2 s \<and> written = [])
       \<and> (findOne (others_upto env 2 s) uid pid = None \<longrightarrow> stock < q \<longrightarrow>
            r = Inl exceeds_stock \<and> s' = others_upto env 2 s \<and> written = [])
       \<and> (\<forall>c. findOne (others_upto env 2 s) uid pid = None \<longrightarrow> q \<le> stock \<longrightarrow>
            create (create_fault env) (others_upto env 3 s) uid pid q = Inl DuplicateKey \<longrightarrow>
            findOne (others_upto env 4 s) uid pid = Some c \<longrightarrow>
            stock < add_numbers (quantity c) q \<longrightarrow>
            r = Inl exceeds_stock \<and> s' = others_upto env 4 s \<and> written = [])
       \<and> (\<forall>item s4 c. findOne (others_upto env 2 s) uid pid = None \<longrightarrow> q \<le> stock \<longrightarrow>
            create (create_fault env) (others_upto env 3 s) uid pid q = Inr (item, s4) \<longrightarrow>
            update_fault env = Some DuplicateKey \<longrightarrow>
            findOne (others env 5 (others env 4 s4)) uid pid = Some c \<longrightarrow>
            stock < add_numbers (quantity c) q \<longrightarrow>
            r = Inl exceeds_stock \<and> s' = others env 5 (others env 4 s4) \<and> written = [item])
       \<and> (\<forall>item s4. findOne (others_upto env 2 s) uid pid = None \<longrightarrow> q \<le> stock \<longrightarrow>
            create (create_fault env) (others_upto env 3 s) uid pid q = Inr (item, s4) \<longrightarrow>
            update_fault env = Some WriteFailed \<longrightarrow>
            r = Inl (ApiError 500 ''Failed to add item to cart'') \<and> s' = others env 4 s4
            \<and> written = [item])"
proof -
  let ?s1 = "others_upto env 1 s" and ?s2 = "others_upto env 2 s" and ?s3 = "others_upto env 3 s"
    and ?s4 = "others_upto env 4 s" and ?s5 = "others_upto env 5 s"
  have k1: "\<exists>k\<le>5. ?s1 = others_upto env k s" by (rule exI [of _ 1]) simp
  have k2: "\<exists>k\<le>5. ?s2 = others_upto env k s" by (rule exI [of _ 2]) simp
  have k3: "\<exists>k\<le>5. ?s3 = others_upto env k s" by (rule exI [of _ 3]) simp
  have k4: "\<exists>k\<le>5. ?s4 = others_upto env k s" by (rule exI [of _ 4]) simp
  have k5: "\<exists>k\<le>5. ?s5 = others_upto env k s" by (rule exI [of _ 5]) simp
  note k = k1 k2 k3 k4 k5
  show ?thesis
    using assms k
    by (auto simp: addOrIncrement_run_def recover_def Let_def others_upto_numeral create_def
        split: option.splits if_splits sum.splits store_error.splits)
qed


lemma abc_NaN: "Number reference (Some (JStr ''abc'')) = NaN"
  by (simp add: Number_def reference_def ref_ToNumber_def is_space_def digit_value_def)

lemma minus_half: "quantity_or_1 reference (Some (JNum (Finite (- 1 / 2)))) = - 1"
proof -
  have "\<lfloor>(- 1 :: rat) / 2\<rfloor> = - 1" by (rule floor_unique) simp_all
  then show ?thesis by (simp add: quantity_or_1_def normalizeQuantity_def Number_def)
qed

theorem quantity_normalized_witness:
  "quantity_or_1 reference (Some (JNum (Finite (7 / 2)))) = 3
   \<and> Number reference (Some (JStr ''abc'')) = NaN
   \<and> quantity_or_1 reference (Some (JStr ''abc'')) = 1
   \<and> addToCartItemController reference quiet (add_request_of (Some (JBool False))) shop
       = (Inl (ApiError 400 ''Quantity must be at least 1''), shop)
   \<and> addToCartItemController reference quiet (add_request_of (Some (JStr []))) shop
       = (Inl (ApiError 400 ''Quantity must be at least 1''), shop)
   \<and> quantity_or_1 reference (body_quantity (add_request_of (Some (JNum (Finite (- 1 / 2)))))) < 1
   \<and> addToCartItemController reference quiet (add_request_of (Some (JNum (Finite (- 1 / 2))))) shop
       = (Inl (ApiError 400 ''Quantity must be at least 1''), shop)
   \<and> 1 \<le> quantity_or_1 reference (body_quantity (add_request_of (Some (JNum (Finite (7 / 2))))))
   \<and> addToCartItemController reference quiet (add_request_of (Some (JNum (Finite (7 / 2))))) shop
       = addOrIncrement quiet 1 0x507f1f77bcf86cd799439011 3 shop"
  using quantity_normalized [where rt = reference and q = "7 / 2" and v = "Some (JStr ''abc'')"
      and req = "add_request_of (Some (JNum (Finite (- 1 / 2))))" and env = quiet and s = shop]
    quantity_normalized [where rt = reference
      and req = "add_request_of (Some (JNum (Finite (7 / 2))))" and env = quiet and s = shop
      and pid = "0x507f1f77bcf86cd799439011"]
    quantity_normalized [where rt = reference
      and req = "add_request_of (Some (JBool False))" and env = quiet and s = shop]
    quantity_normalized [where rt = reference
      and req = "add_request_of (Some (JStr []))" and env = quiet and s = shop]
  by (simp add: floor_seven_halves seven_halves abc_NaN minus_half ref_id_valid add_request_of_def
      addToCartItemController_def)

lemma add_numbers_small: "\<bar>a + b\<bar> < 2 ^ 53 \<Longrightarrow> add_numbers a b = a + b"
  by (simp add: add_numbers_def nearest_double_small)

lemma add_numbers_rounds: "add_numbers (2 ^ 53) 1 = 2 ^ 53"
  by (simp only: add_numbers_def nearest_double_rounds)

lemma race_states:
  "others_upto race 1 shop = shop" "others_upto race 2 shop = shop"
  "others_upto race 3 shop
     = shop\<lparr>cart := [\<lparr>item_id = 100, userId = 1, productId = 0x507f1f77bcf86cd799439011,
                       quantity = 1\<rparr>], next_id := 101\<rparr>"
  "others_upto race 4 shop = shop\<lparr>next_id := 101\<rparr>"
  by (simp_all add: others_upto_numeral race_def shop_def)

lemma contend_states:
  "others_upto contend 1 shop = shop" "others_upto contend 2 shop = shop"
  "others_upto contend 3 shop
     = shop\<lparr>cart := [\<lparr>item_id = 100, userId = 1, productId = 0x507f1f77bcf86cd799439011,
                       quantity = 1\<rparr>], next_id := 101\<rparr>"
  "others_upto contend 4 shop = others_upto contend 3 shop"
  "others_upto contend 5 shop = others_upto contend 3 shop"
  by (simp_all add: others_upto_numeral contend_def shop_def)

theorem addOrIncrement_conflict_witness:
  "findById (others_upto race 1 shop) 0x507f1f77bcf86cd799439011 = Some 5
   \<and> findOne (others_upto race 2 shop) 1 0x507f1f77bcf86cd799439011 = None
   \<and> (1::int) \<le> 5
   \<and> create (create_fault race) (others_upto race 3 shop) 1 0x507f1f77bcf86cd799439011 1
       = Inl DuplicateKey
   \<and> findOne (others_upto race 4 shop) 1 0x507f1f77bcf86cd799439011 = None
   \<and> addOrIncrement race 1 0x507f1f77bcf86cd799439011 1 shop
       = (Inl (ApiError 409 ''Cart item already exists''), others_upto race 4 shop)
   \<and> create (create_fault contend) (others_upto contend 3 shop) 1 0x507f1f77bcf86cd799439011 1
       = Inl DuplicateKey
   \<and> addOrIncrement contend 1 0x507f1f77bcf86cd799439011 1 shop
       = (Inr (200, \<lparr>item_id = 100, userId = 1, productId = 0x507f1f77bcf86cd799439011,
                      quantity = 2\<rparr>, ''Cart item quantity updated''),
          shop\<lparr>cart := [\<lparr>item_id = 100, userId = 1, productId = 0x507f1f77bcf86cd799439011,
                           quantity = 2\<rparr>], next_id := 101\<rparr>)"
proof -
  have r: "findById (others_upto race 1 shop) 0x507f1f77bcf86cd799439011 = Some 5"
    "findOne (others_upto race 2 shop) 1 0x507f1f77bcf86cd799439011 = None"
    "create (create_fault race) (others_upto race 3 shop) 1 0x507f1f77bcf86cd799439011 1
       = Inl DuplicateKey"
    "findOne (others_upto race 4 shop) 1 0x507f1f77bcf86cd799439011 = None"
    by (simp_all add: race_states) (simp_all add: shop_def findById_def findOne_def create_def race_def)
  have c: "findById (others_upto contend 1 shop) 0x507f1f77bcf86cd799439011 = Some 5"
    "findOne (others_upto contend 2 shop) 1 0x507f1f77bcf86cd799439011 = None"
    "create (create_fault contend) (others_upto contend 3 shop) 1 0x507f1f77bcf86cd799439011 1
       = Inl DuplicateKey"
    "findOne (others_upto contend 4 shop) 1 0x507f1f77bcf86cd799439011
       = Some \<lparr>item_id = 100, userId = 1, productId = 0x507f1f77bcf86cd799439011, quantity = 1\<rparr>"
    "save (others_upto contend 5 shop)
        \<lparr>item_id = 100, userId = 1, productId = 0x507f1f77bcf86cd799439011, quantity = 2\<rparr>
       = Some (shop\<lparr>cart := [\<lparr>item_id = 100, userId = 1,
                 productId = 0x507f1f77bcf86cd799439011, quantity = 2\<rparr>], next_id := 101\<rparr>)"
    by (simp_all add: contend_states)
      (simp_all add: shop_def findById_def findOne_def create_def contend_def save_def)
  have sum: "add_numbers 1 1 = 2"
    by (simp add: add_numbers_small)
  show ?thesis
    using addOrIncrement_conflict [OF r(1) r(2) _ r(3)] addOrIncrement_conflict [OF c(1) c(2) _ c(3)]
      r c
    by (simp add: sum)
qed

theorem addOrIncrement_capacity_witness:
  "findById (others_upto quiet 1 shop) 0x507f1f77bcf86cd799439011 = Some 5
   \<and> addOrIncrement_run quiet 1 0x507f1f77bcf86cd799439011 6 shop = (Inl exceeds_stock, shop, [])
   \<and> addOrIncrement_run quiet 1 0x507f1f77bcf86cd799439011 3 shop
       = (Inr (201, \<lparr>item_id = 100, userId = 1, productId = 0x507f1f77bcf86cd799439011,
                      quantity = 3\<rparr>, ''Item added to cart''),
          \<lparr>products = [(0x507f1f77bcf86cd799439011, 5)],
           cart = [\<lparr>item_id = 100, userId = 1, productId = 0x507f1f77bcf86cd799439011,
                    quantity = 3\<rparr>],
           shopping_cart = [(1, [100])], next_id = 101\<rparr>,
          [\<lparr>item_id = 100, userId = 1, productId = 0x507f1f77bcf86cd799439011, quantity = 3\<rparr>])
   \<and> addOrIncrement_run update_fails 1 0x507f1f77bcf86cd799439011 3 shop
       = (Inl (ApiError 500 ''Failed to add item to cart''),
          \<lparr>products = [(0x507f1f77bcf86cd799439011, 5)],
           cart = [\<lparr>item_id = 100, userId = 1, productId = 0x507f1f77bcf86cd799439011,
                    quantity = 3\<rparr>],
           shopping_cart = [(1, [])], next_id = 101\<rparr>,
          [\<lparr>item_id = 100, userId = 1, productId = 0x507f1f77bcf86cd799439011, quantity = 3\<rparr>])
   \<and> addOrIncrement_run quiet 1 0x507f1f77bcf86cd799439011 1 warehouse
       = (Inr (200, \<lparr>item_id = 100, userId = 1, productId = 0x507f1f77bcf86cd799439011,
                      quantity = 2 ^ 53\<rparr>, ''Cart item quantity updated''),
          warehouse,
          [\<lparr>item_id = 100, userId = 1, productId = 0x507f1f77bcf86cd799439011,
            quantity = 2 ^ 53\<rparr>])
   \<and> (3::int) \<le> 5"
proof -
  let ?pid = "0x507f1f77bcf86cd799439011 :: nat"
  let ?item = "\<lparr>item_id = 100, userId = 1, productId = ?pid, quantity = 3\<rparr>"
  have h: "findById (others_upto quiet 1 shop) ?pid = Some 5"
    by (simp add: quiet_def shop_def findById_def)
  have hu: "findById (others_upto update_fails 1 shop) ?pid = Some 5"
    by (simp add: update_fails_def shop_def findById_def)
  have f: "findOne (others_upto quiet 2 shop) 1 ?pid = None"
    "findOne (others_upto update_fails 2 shop) 1 ?pid = None"
    by (simp_all add: others_upto_numeral quiet_def update_fails_def shop_def findOne_def)
  have q2: "others_upto quiet 2 shop = shop"
    by (simp add: others_upto_numeral quiet_def)
  obtain r s' written where six: "addOrIncrement_run quiet 1 ?pid 6 shop = (r, s', written)"
    by (cases "addOrIncrement_run quiet 1 ?pid 6 shop")
  from addOrIncrement_capacity [OF h six] f(1)
  have "r = Inl exceeds_stock \<and> s' = others_upto quiet 2 shop \<and> written = []"
    by simp
  then have six': "addOrIncrement_run quiet 1 ?pid 6 shop = (Inl exceeds_stock, shop, [])"
    using six q2 by simp
  have three: "addOrIncrement_run quiet 1 ?pid 3 shop
      = (Inr (201, ?item, ''Item added to cart''),
         \<lparr>products = [(?pid, 5)], cart = [?item], shopping_cart = [(1, [100])], next_id = 101\<rparr>,
         [?item])"
    by (simp add: addOrIncrement_run_def quiet_def shop_def findById_def findOne_def create_def
        addToSet_def Let_def)
  have created: "create (create_fault update_fails) (others_upto update_fails 3 shop) 1 ?pid 3
      = Inr (?item, \<lparr>products = [(?pid, 5)], cart = [?item], shopping_cart = [(1, [])],
                     next_id = 101\<rparr>)"
    "update_fault update_fails = Some WriteFailed"
    by (simp_all add: others_upto_numeral update_fails_def shop_def findOne_def create_def Let_def)
  obtain r2 s2 w2 where lost: "addOrIncrement_run update_fails 1 ?pid 3 shop = (r2, s2, w2)"
    by (cases "addOrIncrement_run update_fails 1 ?pid 3 shop")
  from addOrIncrement_capacity [OF hu lost] f(2) created
  have "r2 = Inl (ApiError 500 ''Failed to add item to cart'')
      \<and> s2 = others update_fails 4 \<lparr>products = [(?pid, 5)], cart = [?item],
                                        shopping_cart = [(1, [])], next_id = 101\<rparr>
      \<and> w2 = [?item]"
    by simp
  then have lost': "addOrIncrement_run update_fails 1 ?pid 3 shop
      = (Inl (ApiError 500 ''Failed to add item to cart''),
         \<lparr>products = [(?pid, 5)], cart = [?item], shopping_cart = [(1, [])], next_id = 101\<rparr>,
         [?item])"
    using lost by (simp add: update_fails_def)
  have rounded: "addOrIncrement_run quiet 1 ?pid 1 warehouse
      = (Inr (200, \<lparr>item_id = 100, userId = 1, productId = ?pid, quantity = 2 ^ 53\<rparr>,
              ''Cart item quantity updated''),
         warehouse,
         [\<lparr>item_id = 100, userId = 1, productId = ?pid, quantity = 2 ^ 53\<rparr>])"
    using add_numbers_rounds
    by (simp add: addOrIncrement_run_def quiet_def warehouse_def findById_def findOne_def
        save_def Let_def)
  show ?thesis
    using h six' three lost' rounded by simp
qed



section \<open>Properties of the cursor codec\<close>


lemma conformsD:
  assumes "conforms rt"
  shows "base64_decode rt (base64_encode rt s) = s"
    and "s \<noteq> [] \<Longrightarrow> base64_encode rt s \<noteq> []"
    and "JSON_stringify rt v \<noteq> []"
    and "JSON_parse rt (JSON_stringify rt (cursor_payload rt t i)) = Some (cursor_payload rt t i)"
    and "valid_instant t \<Longrightarrow> toISOString rt t \<noteq> []"
    and "valid_instant t \<Longrightarrow> Date_of rt (JStr (toISOString rt t)) = Some t"
    and "valid_oid i \<Longrightarrow> ObjectId_toString rt i \<noteq> []"
    and "valid_oid i \<Longrightarrow> isValidObjectId rt (Some (JStr (ObjectId_toString rt i)))"
    and "valid_oid i \<Longrightarrow> ObjectId_of rt (Some (JStr (ObjectId_toString rt i))) = Some i"
  using assms unfolding conforms_def by blast+

lemma decode_encode:
  assumes "conforms rt" "valid_instant (createdAt doc)" "valid_oid (p_id doc)"
  shows "decodeCursor rt (encodeCursor rt doc)
           = Inr \<lparr>c_createdAt = createdAt doc, c_id = p_id doc\<rparr>"
proof -
  let ?payload = "cursor_payload rt (createdAt doc) (p_id doc)"
  have parse: "JSON_parse rt (base64_decode rt (encodeCursor rt doc)) = Some ?payload"
    by (simp add: encodeCursor_def conformsD(1,4) [OF assms(1)])
  have props: "property ?payload ''createdAt'' = Some (JStr (toISOString rt (createdAt doc)))"
    "property ?payload ''id'' = Some (JStr (ObjectId_toString rt (p_id doc)))"
    by (simp_all add: property_def cursor_payload_def)
  note date = conformsD(5,6) [OF assms(1,2)]
  note oid = conformsD(7,8,9) [OF assms(1,3)]
  show ?thesis
    by (simp add: decodeCursor_def parse props date oid truthy_def)
qed

lemma encode_nonempty: "conforms rt \<Longrightarrow> encodeCursor rt doc \<noteq> []"
  by (simp add: encodeCursor_def conformsD(2,3))

text \<open>
  C5. For every runtime that keeps the library's promises, every valid instant and every
  valid ObjectId: decoding the encoded cursor gives back exactly that pair.
\<close>

theorem cursor_roundtrip:
  assumes "conforms rt" "valid_instant (createdAt doc)" "valid_oid (p_id doc)"
  shows "decodeCursor rt (encodeCursor rt doc)
           = Inr \<lparr>c_createdAt = createdAt doc, c_id = p_id doc\<rparr>"
  using assms by (rule decode_encode)

lemma digits_numeral:
  "digits b (numeral k) n = digits b (pred_numeral k) (n div b) @ [digit_char (n mod b)]"
  by (simp add: numeral_eq_Suc)

lemma older_valid: "valid_instant (createdAt older_product)" "valid_oid (p_id older_product)"
  by (simp_all add: older_product_def valid_oid_def days_in_month_def leap_year_def)

lemma older_token:
  "encodeCursor reference older_product
     = ''eyJjcmVhdGVkQXQiOiIyMDI0LTAyLTI5VDIzOjU5OjU4LjAwN1oiLCJpZCI6IjUwN2YxZjc3YmNmODZjZDc5OTQzOTAxMSJ9''"
  by (simp add: encodeCursor_def reference_def cursor_payload_def ref_JSON_stringify_def
      quoted_def older_product_def year_text_def digits_numeral digit_char_def b64_char_def
      char_of_def bit_Suc_0_iff)

theorem cursor_roundtrip_witness:
  "conforms reference \<and> valid_instant (createdAt older_product) \<and> valid_oid (p_id older_product)
   \<and> decodeCursor reference
         ''eyJjcmVhdGVkQXQiOiIyMDI0LTAyLTI5VDIzOjU5OjU4LjAwN1oiLCJpZCI6IjUwN2YxZjc3YmNmODZjZDc5OTQzOTAxMSJ9''
       = Inr \<lparr>c_createdAt = (2024, 2, 29, 23, 59, 58, 7), c_id = 0x507f1f77bcf86cd799439011\<rparr>"
  using cursor_roundtrip [OF reference_conforms older_valid] reference_conforms older_valid
  by (simp add: older_token) (simp add: older_product_def)


text \<open>
  C6. Whatever the library functions do with the input: a token that does not parse, a
  parsed value whose \<open>createdAt\<close> or \<open>id\<close> is missing or falsy, a timestamp that is not
  a date, or an id that \<^verbatim>\<open>isValidObjectId\<close> refuses, each gives
  \<^verbatim>\<open>ApiError(400, 'Invalid cursor')\<close>. The decoder has no other failure, it succeeds
  only with the date and the id that the library read from the token, and the lister
  passes its error on instead of answering with an empty page.
\<close>

theorem decodeCursor_rejects:
  "(JSON_parse rt (base64_decode rt value) = None \<longrightarrow> decodeCursor rt value = Inl invalid_cursor)
   \<and> (\<forall>decoded. JSON_parse rt (base64_decode rt value) = Some decoded \<longrightarrow>
          (\<not> truthy (property decoded ''createdAt'') \<or> \<not> truthy (property decoded ''id'')
           \<or> Option.bind (property decoded ''createdAt'') (Date_of rt) = None
           \<or> \<not> isValidObjectId rt (property decoded ''id'')) \<longrightarrow>
          decodeCursor rt value = Inl invalid_cursor)
   \<and> (decodeCursor rt value = Inl invalid_cursor
        \<or> (\<exists>decoded t i. JSON_parse rt (base64_decode rt value) = Some decoded
              \<and> Option.bind (property decoded ''createdAt'') (Date_of rt) = Some t
              \<and> isValidObjectId rt (property decoded ''id'')
              \<and> ObjectId_of rt (property decoded ''id'') = Some i
              \<and> decodeCursor rt value = Inr \<lparr>c_createdAt = t, c_id = i\<rparr>))
   \<and> (\<forall>e. q_cursor req = Some value \<longrightarrow> value \<noteq> [] \<longrightarrow>
          \<not> (given (q_sort req) \<and> q_sort req \<noteq> Some ''oldest'') \<longrightarrow>
          decodeCursor rt value = Inl e \<longrightarrow> listProducts rt coll query req = Inl e)"
  by (auto simp: decodeCursor_def listProducts_def given_def Let_def
      split: option.splits prod.splits)

lemma garbage_bytes: "JSON_parse reference (base64_decode reference ''garbage'') = None"
  by (simp add: reference_def ref_base64_decode_def sextets_of_def List.map_filter_def
      b64_value_def ref_JSON_parse_def char_of_def bit_Suc_0_iff)

lemma bad_id_token:
  "JSON_parse reference (base64_decode reference
      ''eyJjcmVhdGVkQXQiOiIyMDI0LTAyLTI5VDIzOjU5OjU4LjAwN1oiLCJpZCI6Inh5eiJ9'')
     = Some (JObj [(''createdAt'', JStr ''2024-02-29T23:59:58.007Z''), (''id'', JStr ''xyz'')])"
  by (simp add: reference_def ref_base64_decode_def sextets_of_def List.map_filter_def
      b64_value_def ref_JSON_parse_def char_of_def bit_Suc_0_iff string_at_def)

lemma xyz_invalid: "\<not> isValidObjectId reference (Some (JStr ''xyz''))"
  by (simp add: reference_def ref_isValidObjectId_def ref_ObjectId_of_def)

theorem decodeCursor_rejects_witness:
  "JSON_parse reference (base64_decode reference ''garbage'') = None
   \<and> decodeCursor reference ''garbage'' = Inl invalid_cursor
   \<and> \<not> isValidObjectId reference (Some (JStr ''xyz''))
   \<and> decodeCursor reference
        ''eyJjcmVhdGVkQXQiOiIyMDI0LTAyLTI5VDIzOjU5OjU4LjAwN1oiLCJpZCI6Inh5eiJ9''
       = Inl invalid_cursor
   \<and> listProducts reference catalog (Fields [])
        (list_request_of None None None (Some ''garbage'')) = Inl invalid_cursor"
  using decodeCursor_rejects [of reference "''garbage''"
      "list_request_of None None None (Some ''garbage'')" catalog "Fields []"]
    decodeCursor_rejects [of reference
      "''eyJjcmVhdGVkQXQiOiIyMDI0LTAyLTI5VDIzOjU5OjU4LjAwN1oiLCJpZCI6Inh5eiJ9''"]
  by (simp add: garbage_bytes bad_id_token xyz_invalid property_def list_request_of_def given_def)



section \<open>Properties of the query composer and the lister\<close>


lemma field_of_keys [simp]:
  "field_of d ''createdAt'' = Some (VDate (createdAt d))"
  "field_of d ''_id'' = Some (VId (p_id d))"
  by (simp_all add: field_of_def)

text \<open>
  C7. For every decoded cursor, base filter and document: the cursor filter holds of the
  document exactly when \<open>createdAt < cursor.createdAt\<close>, or \<open>createdAt\<close> is equal and
  \<open>_id < cursor.id\<close> (for \<open>oldest\<close>, the same with \<open>>\<close>), and \<^verbatim>\<open>combineQuery\<close> puts
  it beside the base filter under \<^verbatim>\<open>$and\<close> (an empty base filter, which matches
  everything, is dropped), so the result holds exactly when both do.
\<close>

theorem keyset_filter:
  "\<exists>e. buildCursorFilter (Some c) sortKey = Some e
     \<and> combineQuery (Some base) (Some e) = Some (if base = Fields [] then e else And [base, e])
     \<and> (matches e d \<longleftrightarrow>
          (if sortKey = Some ''oldest''
           then c_createdAt c < createdAt d \<or> (createdAt d = c_createdAt c \<and> c_id c < p_id d)
           else createdAt d < c_createdAt c \<or> (createdAt d = c_createdAt c \<and> p_id d < c_id c)))
     \<and> (matches (if base = Fields [] then e else And [base, e]) d \<longleftrightarrow>
          matches base d \<and> matches e d)"
  by (auto simp: buildCursorFilter_def combineQuery_def)

theorem keyset_filter_witness:
  "combineQuery (Some (Fields [(''price'', Gte (VNum 5))]))
      (buildCursorFilter (Some \<lparr>c_createdAt = (2024, 3, 1, 0, 0, 0, 0), c_id = 7\<rparr>) None)
     = Some (And [Fields [(''price'', Gte (VNum 5))],
                  Or [Fields [(''createdAt'', Lt (VDate (2024, 3, 1, 0, 0, 0, 0)))],
                      Fields [(''createdAt'', Eq (VDate (2024, 3, 1, 0, 0, 0, 0))),
                              (''_id'', Lt (VId 7))]]])
   \<and> matches (And [Fields [(''price'', Gte (VNum 5))],
                  Or [Fields [(''createdAt'', Lt (VDate (2024, 3, 1, 0, 0, 0, 0)))],
                      Fields [(''createdAt'', Eq (VDate (2024, 3, 1, 0, 0, 0, 0))),
                              (''_id'', Lt (VId 7))]]]) older_product
   \<and> \<not> matches (And [Fields [(''price'', Gte (VNum 5))],
                  Or [Fields [(''createdAt'', Lt (VDate (2024, 3, 1, 0, 0, 0, 0)))],
                      Fields [(''createdAt'', Eq (VDate (2024, 3, 1, 0, 0, 0, 0))),
                              (''_id'', Lt (VId 7))]]]) newer_product"
  using keyset_filter [of "\<lparr>c_createdAt = (2024, 3, 1, 0, 0, 0, 0), c_id = 7\<rparr>" None
      "Fields [(''price'', Gte (VNum 5))]" older_product]
    keyset_filter [of "\<lparr>c_createdAt = (2024, 3, 1, 0, 0, 0, 0), c_id = 7\<rparr>" None
      "Fields [(''price'', Gte (VNum 5))]" newer_product]
  by (auto simp: buildCursorFilter_def older_product_def newer_product_def field_of_def)

lemma parsePagination_default: "parsePagination None None = (1, 10)"
  by (simp add: parsePagination_def parseInt10_def or_default_def)

lemma parseInt10_digit:
  "parseInt10 (Some ''1'') = Some 1" "parseInt10 (Some ''2'') = Some 2"
  by (simp_all add: parseInt10_def is_space_def digit_value_def Let_def)

lemma parsePagination_small:
  "parsePagination (Some ''1'') (Some ''1'') = (1, 1)"
  "parsePagination (Some ''2'') (Some ''1'') = (2, 1)"
  by (simp_all add: parsePagination_def parseInt10_digit or_default_def)

lemma newer_valid: "valid_instant (createdAt newer_product)" "valid_oid (p_id newer_product)"
  by (simp_all add: newer_product_def valid_oid_def days_in_month_def leap_year_def)

lemma catalog_decode:
  "decodeCursor reference (encodeCursor reference newer_product)
     = Inr \<lparr>c_createdAt = (2024, 3, 1, 0, 0, 0, 0), c_id = 0x507f1f77bcf86cd799439012\<rparr>"
  "decodeCursor reference (encodeCursor reference older_product)
     = Inr \<lparr>c_createdAt = (2024, 2, 29, 23, 59, 58, 7), c_id = 0x507f1f77bcf86cd799439011\<rparr>"
  using decode_encode [OF reference_conforms newer_valid]
    decode_encode [OF reference_conforms older_valid]
  by (simp_all add: newer_product_def older_product_def)

lemma token_given: "given (Some (encodeCursor reference d))"
  by (simp add: given_def encode_nonempty [OF reference_conforms])

text \<open>
  C1. The gate of the cursor branch lets through a missing sort key and \<open>oldest\<close> only.
  A request that names \<open>newest\<close> and carries a valid cursor is refused with the message
  that cursor pagination supports newest or oldest sorting; the same cursor without a
  sort key, or with \<open>oldest\<close>, is served, and \<open>price_asc\<close> is refused.
\<close>

theorem newest_cursor_rejected:
  "listProducts reference catalog (Fields [])
      (list_request_of None None (Some ''newest'') (Some (encodeCursor reference newer_product)))
     = Inl (ApiError 400 ''Cursor pagination supports only newest or oldest sorting'')
   \<and> listProducts reference catalog (Fields [])
      (list_request_of None None None (Some (encodeCursor reference newer_product)))
     = Inr (200, \<lparr>items = [older_product], pagination = CursorMode 10 None False\<rparr>,
            ''Products fetched successfully'')
   \<and> listProducts reference catalog (Fields [])
      (list_request_of None None (Some ''oldest'') (Some (encodeCursor reference older_product)))
     = Inr (200, \<lparr>items = [newer_product], pagination = CursorMode 10 None False\<rparr>,
            ''Products fetched successfully'')
   \<and> listProducts reference catalog (Fields [])
      (list_request_of None None (Some ''price_asc'') (Some (encodeCursor reference newer_product)))
     = Inl (ApiError 400 ''Cursor pagination supports only newest or oldest sorting'')"
proof -
  have cmp: "createdAt older_product < createdAt newer_product"
    "\<not> createdAt newer_product < createdAt older_product"
    "createdAt older_product = (2024, 2, 29, 23, 59, 58, 7)"
    "createdAt newer_product = (2024, 3, 1, 0, 0, 0, 0)"
    "p_id older_product = 0x507f1f77bcf86cd799439011"
    "p_id newer_product = 0x507f1f77bcf86cd799439012"
    by (simp_all add: older_product_def newer_product_def)
  show ?thesis
    using token_given [of newer_product] token_given [of older_product]
    by (simp add: listProducts_def list_request_of_def parsePagination_default given_def
        unsupported_sort_def catalog_decode buildCursorFilter_def combineQuery_def
        cursorSort_def find_docs_def catalog_def sort_docs_def cmp Let_def)
qed


lemma cursor_gate:
  assumes "given (q_cursor req)"
  shows "listProducts rt coll query req = Inl unsupported_sort
           \<longleftrightarrow> given (q_sort req) \<and> q_sort req \<noteq> Some ''oldest''"
proof -
  have "decodeCursor rt v \<noteq> Inl unsupported_sort" for v
    by (auto simp: decodeCursor_def unsupported_sort_def invalid_cursor_def
        split: option.splits)
  then show ?thesis
    using assms
    by (auto simp: listProducts_def Let_def split: prod.splits sum.splits)
qed

subsection \<open>The two branches of the lister\<close>

lemma listProducts_cursor:
  assumes "given (q_cursor req)"
    and "\<not> (given (q_sort req) \<and> q_sort req \<noteq> Some ''oldest'')"
    and "decodeCursor rt (the (q_cursor req)) = Inr cur"
    and "parsePagination (q_page req) (q_limit req) = (pg, lmt)"
    and "found = find_docs coll (combineQuery (Some query) (buildCursorFilter (Some cur) (q_sort req)))
                   (cursorSort (q_sort req)) 0 (nat lmt + 1)"
  shows "listProducts rt coll query req
    = Inr (200,
           \<lparr>items = (if int (length found) > lmt then butlast found else found),
            pagination = CursorMode lmt
              (if int (length found) > lmt then Some (encodeCursor rt (last (butlast found))) else None)
              (int (length found) > lmt)\<rparr>,
           ''Products fetched successfully'')"
  using assms(1,2) by (simp add: listProducts_def Let_def assms(3,4,5))

lemma listProducts_offset:
  assumes "\<not> given (q_cursor req)"
    and "parsePagination (q_page req) (q_limit req) = (pg, lmt)"
  shows "listProducts rt coll query req
    = Inr (200,
           \<lparr>items = find_docs coll (Some query) (buildSort (q_sort req)) (nat ((pg - 1) * lmt)) (nat lmt),
            pagination = OffsetMode (countDocuments coll query) pg lmt
              (nat \<lceil>rat_of_nat (countDocuments coll query) / rat_of_int lmt\<rceil>)\<rparr>,
           ''Products fetched successfully'')"
  using assms(1) by (simp add: listProducts_def Let_def assms(2))

text \<open>
  The sort of the cursor branch names \<open>createdAt\<close> and then \<open>_id\<close>, and orders any
  two documents with different ids. The sort of the offset branch is the single key that
  \<^verbatim>\<open>buildSort\<close> returns, never \<open>_id\<close>, so it leaves documents of one instant tied.
\<close>

lemma cursorSort_total:
  "p_id a \<noteq> p_id b \<Longrightarrow> before (cursorSort sortKey) a b \<or> before (cursorSort sortKey) b a"
  by (auto simp: cursorSort_def)

lemma buildSort_single: "\<exists>f dir. buildSort sortKey = [(f, dir)] \<and> f \<noteq> ''_id''"
  by (simp add: buildSort_def)

lemma buildSort_ties:
  "createdAt a = createdAt b \<Longrightarrow> \<not> before (buildSort None) a b \<and> \<not> before (buildSort None) b a"
  by (simp add: buildSort_def)



section \<open>Offset pages and cursor pages\<close>

lemma before_offset: "before (buildSort None) a b = (createdAt b < createdAt a)"
  by (auto simp: buildSort_def)

lemma before_cursor:
  "before (cursorSort None) a b
     = (createdAt b < createdAt a \<or> (createdAt a = createdAt b \<and> p_id b < p_id a))"
  by (auto simp: cursorSort_def)

lemma set_insert_doc [simp]: "set (insert_doc s x ys) = insert x (set ys)"
  by (induction ys) auto

lemma length_insert_doc [simp]: "length (insert_doc s x ys) = Suc (length ys)"
  by (induction ys) auto

lemma distinct_map_insert_doc:
  "distinct (map k (insert_doc s x ys)) = (k x \<notin> k ` set ys \<and> distinct (map k ys))"
  by (induction ys) auto

lemma insert_doc_newest:
  assumes "\<forall>y\<in>set ys. before s x y = (createdAt y < createdAt x)"
    and "\<forall>y\<in>set ys. createdAt y \<noteq> createdAt x"
    and "newest_first ys"
  shows "newest_first (insert_doc s x ys)"
  using assms
proof (induction ys)
  case Nil
  then show ?case by (simp add: newest_first_def)
next
  case (Cons y ys)
  show ?case
  proof (cases "before s x y")
    case True
    then have "createdAt y < createdAt x" using Cons.prems(1) by simp
    then show ?thesis
      using True Cons.prems(3) by (auto simp: newest_first_def)
  next
    case False
    then have "createdAt x < createdAt y" using Cons.prems(1,2) by force
    moreover have "newest_first (insert_doc s x ys)"
      using Cons by (simp add: newest_first_def)
    ultimately show ?thesis
      using False Cons.prems(3) by (auto simp: newest_first_def)
  qed
qed

lemma distinct_map_fresh:
  "distinct (map f (acc @ x # xs)) \<Longrightarrow> \<forall>y\<in>set acc. f y \<noteq> f x"
  by (auto simp: image_iff disjoint_iff)

lemma sort_acc:
  assumes "distinct (map createdAt (acc @ xs))"
    and "\<forall>a\<in>set (acc @ xs). \<forall>b\<in>set (acc @ xs). before s a b = (createdAt b < createdAt a)"
    and "newest_first acc"
  shows "newest_first (foldl (\<lambda>acc x. insert_doc s x acc) acc xs)
       \<and> set (foldl (\<lambda>acc x. insert_doc s x acc) acc xs) = set acc \<union> set xs
       \<and> length (foldl (\<lambda>acc x. insert_doc s x acc) acc xs) = length acc + length xs"
  using assms
proof (induction xs arbitrary: acc)
  case Nil
  then show ?case by simp
next
  case (Cons x xs)
  have fresh: "\<forall>y\<in>set acc. createdAt y \<noteq> createdAt x"
    using Cons.prems(1) by (rule distinct_map_fresh)
  have "newest_first (insert_doc s x acc)"
    using Cons.prems(2,3) fresh by (intro insert_doc_newest) auto
  moreover have "distinct (map createdAt (insert_doc s x acc @ xs))"
    using Cons.prems(1) by (auto simp: distinct_map_insert_doc)
  moreover have "\<forall>a\<in>set (insert_doc s x acc @ xs). \<forall>b\<in>set (insert_doc s x acc @ xs).
      before s a b = (createdAt b < createdAt a)"
    using Cons.prems(2) by auto
  ultimately show ?case
    using Cons.IH [of "insert_doc s x acc"] by auto
qed


lemma sort_docs_newest:
  assumes "distinct (map createdAt xs)"
    and "\<forall>a\<in>set xs. \<forall>b\<in>set xs. before s a b = (createdAt b < createdAt a)"
  shows "newest_first (sort_docs s xs)" and "set (sort_docs s xs) = set xs"
    and "length (sort_docs s xs) = length xs"
  using sort_acc [of "[]" xs s] assms by (simp_all add: sort_docs_def newest_first_def)

lemma newest_first_unique:
  assumes "newest_first xs" "newest_first ys" "set xs = set ys"
  shows "xs = ys"
  using assms
proof (induction xs arbitrary: ys)
  case Nil
  then show ?case by simp
next
  case (Cons x xs)
  then obtain y ys' where ys: "ys = y # ys'"
    by (cases ys) auto
  have later_x: "\<forall>z\<in>set xs. createdAt z < createdAt x"
    and later_y: "\<forall>z\<in>set ys'. createdAt z < createdAt y"
    using Cons.prems(1,2) unfolding ys by (auto simp: newest_first_def)
  have "x = y"
  proof (rule ccontr)
    assume "x \<noteq> y"
    then have "x \<in> set ys'" "y \<in> set xs"
      using Cons.prems(3) unfolding ys by auto
    then have "createdAt x < createdAt y" "createdAt y < createdAt x"
      using later_x later_y by auto
    then show False by simp
  qed
  moreover have "x \<notin> set xs" "y \<notin> set ys'"
    using later_x later_y by auto
  ultimately have "set xs = set ys'"
    using Cons.prems(3) unfolding ys by auto
  moreover have "newest_first xs" "newest_first ys'"
    using Cons.prems(1,2) unfolding ys by (auto simp: newest_first_def)
  ultimately show ?case
    using Cons.IH [of ys'] \<open>x = y\<close> ys by simp
qed

lemma newest_first_filter: "newest_first xs \<Longrightarrow> newest_first (filter P xs)"
  by (simp add: newest_first_def sorted_wrt_filter)

lemma newest_first_drop: "newest_first xs \<Longrightarrow> newest_first (drop n xs)"
  by (simp add: newest_first_def sorted_wrt_drop)

lemma newest_first_distinct: "newest_first xs \<Longrightarrow> distinct (map createdAt xs)"
  by (induction xs) (auto simp: newest_first_def)

lemma newest_after:
  assumes "newest_first xs" "j < length xs"
  shows "filter (\<lambda>d. createdAt d < createdAt (xs ! j)) xs = drop (Suc j) xs"
  using assms
proof (induction xs arbitrary: j)
  case Nil
  then show ?case by simp
next
  case (Cons x xs)
  have later: "\<forall>z\<in>set xs. createdAt z < createdAt x" and rest: "newest_first xs"
    using Cons.prems(1) by (auto simp: newest_first_def)
  show ?case
  proof (cases j)
    case 0
    then show ?thesis using later by (simp add: filter_id_conv)
  next
    case (Suc i)
    then have "i < length xs" using Cons.prems(2) by simp
    then have "createdAt (xs ! i) < createdAt x" using later by simp
    then have "\<not> createdAt x < createdAt (xs ! i)" by simp
    then show ?thesis
      using Suc Cons.IH [OF rest \<open>i < length xs\<close>] by simp
  qed
qed

text \<open>Sorting a filtered collection, by either sort, gives the filtered newest-first list.\<close>

lemma sort_of_filter:
  assumes "distinct (map createdAt xs)"
    and "s = buildSort None \<or> s = cursorSort None"
  shows "sort_docs s (filter P xs) = filter P (sort_docs (buildSort None) xs)"
proof -
  have inj: "createdAt a = createdAt b \<Longrightarrow> a = b" if "a \<in> set xs" "b \<in> set xs" for a b
    using assms(1) that by (auto simp: distinct_map inj_on_def)
  have tie: "\<not> (createdAt a = createdAt b \<and> p_id b < p_id a)"
    if "a \<in> set xs" "b \<in> set xs" for a b
    using inj [OF that] by auto
  have key: "\<forall>a\<in>set xs. \<forall>b\<in>set xs. before s a b = (createdAt b < createdAt a)"
    using assms(2) tie by (auto simp: before_offset before_cursor)
  have d: "distinct (map createdAt (filter P xs))"
    using assms(1) by (simp add: distinct_map_filter)
  have "newest_first (sort_docs s (filter P xs))" "set (sort_docs s (filter P xs)) = set (filter P xs)"
    using sort_docs_newest [OF d, of s] key by auto
  moreover have "newest_first (filter P (sort_docs (buildSort None) xs))"
    "set (filter P (sort_docs (buildSort None) xs)) = set (filter P xs)"
    using sort_docs_newest [OF assms(1), of "buildSort None"]
    by (auto simp: before_offset newest_first_filter)
  ultimately show ?thesis
    by (intro newest_first_unique) auto
qed


subsection \<open>Page numbers and page sizes\<close>

lemma digit_is_plain:
  "digit_value 10 c \<noteq> None \<Longrightarrow> \<not> is_space c \<and> c \<noteq> CHR ''-'' \<and> c \<noteq> CHR ''+''"
  by (auto simp: digit_value_def is_space_def Let_def split: if_splits)

lemma decimal_digits: "c \<in> set (decimal n) \<Longrightarrow> digit_value 10 c \<noteq> None"
proof (induction n rule: decimal.induct)
  case (1 n)
  show ?case
  proof (cases "n < 10")
    case True
    then show ?thesis
      using "1.prems" by (subst (asm) decimal.simps) (simp add: digit_value_char)
  next
    case False
    then show ?thesis
      using 1 by (subst (asm) (2) decimal.simps) (auto simp: digit_value_char)
  qed
qed

lemma decimal_nonempty: "decimal n \<noteq> []"
  by (subst decimal.simps) simp

lemma number_of_decimal: "number_of 10 0 (decimal n) = Some n"
proof (induction n rule: decimal.induct)
  case (1 n)
  show ?case
  proof (cases "n < 10")
    case True
    then show ?thesis by (subst decimal.simps) (simp add: digit_value_char)
  next
    case False
    with 1 have "number_of 10 0 (decimal (n div 10)) = Some (n div 10)" by simp
    then show ?thesis
      using False by (subst decimal.simps) (simp add: number_of_append digit_value_char)
  qed
qed

lemma parseInt10_decimal: "parseInt10 (Some (decimal n)) = Some (int n)"
proof -
  have digits: "\<forall>c\<in>set (decimal n). digit_value 10 c \<noteq> None"
    using decimal_digits by blast
  obtain c cs where d: "decimal n = c # cs"
    using decimal_nonempty [of n] by (cases "decimal n") auto
  have c: "\<not> is_space c" "c \<noteq> CHR ''-''" "c \<noteq> CHR ''+''"
    using digits digit_is_plain [of c] unfolding d by auto
  have "takeWhile (\<lambda>c. digit_value 10 c \<noteq> None) (c # cs) = c # cs"
    using digits unfolding d by (simp add: takeWhile_eq_all_conv)
  moreover have "number_of 10 0 (c # cs) = Some n"
    using number_of_decimal [of n] unfolding d .
  ultimately show ?thesis
    using c unfolding parseInt10_def d by (simp add: Let_def)
qed

lemma limit_bounds: "1 \<le> snd (parsePagination p lmt)" "snd (parsePagination p lmt) \<le> 100"
  by (simp_all add: parsePagination_def)

lemma limit_same: "snd (parsePagination p lmt) = snd (parsePagination None lmt)"
  by (simp add: parsePagination_def)

lemma limit_of_pos: "0 < limit_of lmt" "int (limit_of lmt) = snd (parsePagination p lmt)"
proof -
  have "1 \<le> snd (parsePagination None lmt)" by (rule limit_bounds)
  then show "0 < limit_of lmt" "int (limit_of lmt) = snd (parsePagination p lmt)"
    unfolding limit_of_def limit_same [of p lmt] by linarith+
qed

lemma parsePagination_page:
  assumes "0 < p"
  shows "parsePagination (Some (decimal p)) lmt = (int p, int (limit_of lmt))"
proof -
  have "fst (parsePagination (Some (decimal p)) lmt) = int p"
    using assms by (simp add: parsePagination_def parseInt10_decimal or_default_def)
  moreover have "snd (parsePagination (Some (decimal p)) lmt) = int (limit_of lmt)"
    by (rule limit_of_pos(2) [symmetric])
  ultimately show ?thesis
    by (simp add: prod_eq_iff)
qed

lemma parsePagination_first: "parsePagination None lmt = (1, int (limit_of lmt))"
proof -
  have "fst (parsePagination None lmt) = 1"
    by (simp add: parsePagination_def parseInt10_def or_default_def)
  moreover have "snd (parsePagination None lmt) = int (limit_of lmt)"
    by (rule limit_of_pos(2) [symmetric])
  ultimately show ?thesis
    by (simp add: prod_eq_iff)
qed

lemma decimal_1: "decimal 1 = ''1''"
  by (subst decimal.simps) (simp add: digit_char_def char_of_def bit_Suc_0_iff)


subsection \<open>What each page holds\<close>

lemma newest_matching_props:
  assumes "distinct (map createdAt coll)"
  shows "newest_first (newest_matching coll query)"
    and "set (newest_matching coll query) = {d \<in> set coll. matches query d}"
    and "length (newest_matching coll query) = countDocuments coll query"
proof -
  have d: "distinct (map createdAt (filter (matches query) coll))"
    using assms by (simp add: distinct_map_filter)
  have k: "\<forall>a\<in>set (filter (matches query) coll). \<forall>b\<in>set (filter (matches query) coll).
      before (buildSort None) a b = (createdAt b < createdAt a)"
    by (simp add: before_offset)
  show "newest_first (newest_matching coll query)"
    and "set (newest_matching coll query) = {d \<in> set coll. matches query d}"
    and "length (newest_matching coll query) = countDocuments coll query"
    using sort_docs_newest [OF d k] by (simp_all add: newest_matching_def countDocuments_def)
qed

lemma offset_response:
  assumes "0 < p"
  shows "listProducts rt coll query (list_request_of (Some (decimal p)) lmt None None)
     = Inr (200,
            \<lparr>items = take (limit_of lmt) (drop ((p - 1) * limit_of lmt) (newest_matching coll query)),
             pagination = OffsetMode (countDocuments coll query) (int p) (int (limit_of lmt))
               (nat \<lceil>rat_of_nat (countDocuments coll query) / rat_of_int (int (limit_of lmt))\<rceil>)\<rparr>,
            ''Products fetched successfully'')"
proof -
  let ?r = "list_request_of (Some (decimal p)) lmt None None"
  have g: "\<not> given (q_cursor ?r)"
    by (simp add: list_request_of_def given_def)
  have pl: "parsePagination (q_page ?r) (q_limit ?r) = (int p, int (limit_of lmt))"
    using parsePagination_page [OF assms] by (simp add: list_request_of_def)
  have "(int p - 1) * int (limit_of lmt) = int ((p - 1) * limit_of lmt)"
    using assms by (simp add: of_nat_diff)
  then have skip: "nat ((int p - 1) * int (limit_of lmt)) = (p - 1) * limit_of lmt"
    by (simp only: nat_int)
  show ?thesis
    unfolding listProducts_offset [OF g pl] skip
    by (simp add: find_docs_def newest_matching_def list_request_of_def)
qed

lemma first_response:
  "listProducts rt coll query (list_request_of None lmt None None)
     = Inr (200,
            \<lparr>items = take (limit_of lmt) (newest_matching coll query),
             pagination = OffsetMode (countDocuments coll query) 1 (int (limit_of lmt))
               (nat \<lceil>rat_of_nat (countDocuments coll query) / rat_of_int (int (limit_of lmt))\<rceil>)\<rparr>,
            ''Products fetched successfully'')"
proof -
  let ?r = "list_request_of None lmt None None"
  have g: "\<not> given (q_cursor ?r)"
    by (simp add: list_request_of_def given_def)
  have pl: "parsePagination (q_page ?r) (q_limit ?r) = (1, int (limit_of lmt))"
    using parsePagination_first by (simp add: list_request_of_def)
  show ?thesis
    unfolding listProducts_offset [OF g pl]
    by (simp add: find_docs_def newest_matching_def list_request_of_def)
qed

lemma pages_cover:
  assumes "0 < L"
  shows "n \<le> nat \<lceil>rat_of_nat n / rat_of_int (int L)\<rceil> * L"
proof -
  let ?c = "\<lceil>rat_of_nat n / rat_of_int (int L)\<rceil>"
  have pos: "(0::rat) < rat_of_int (int L)"
    using assms by simp
  have "rat_of_nat n \<le> rat_of_int ?c * rat_of_int (int L)"
    by (rule pos_divide_le_eq [OF pos, THEN iffD1]) (rule le_of_int_ceiling)
  then have "rat_of_int (int n) \<le> rat_of_int (?c * int L)"
    by simp
  then have le: "int n \<le> ?c * int L"
    by (simp only: of_int_le_iff)
  have "(0::rat) \<le> rat_of_nat n / rat_of_int (int L)"
    by simp
  then have "0 \<le> ?c"
    unfolding zero_le_ceiling by linarith
  then have "?c * int L = int (nat ?c * L)"
    by simp
  with le show ?thesis
    by linarith
qed

lemma concat_pages:
  "concat (map (\<lambda>p. take L (drop ((p - 1) * L) xs)) [1..<T + 1]) = take (T * L) xs"
proof (induction T)
  case 0
  then show ?case by simp
next
  case (Suc T)
  have "Suc T * L = T * L + L"
    by simp
  then have "take (Suc T * L) xs = take (T * L) xs @ take L (drop (T * L) xs)"
    by (simp only: take_add)
  then show ?case
    using Suc by simp
qed

lemma length_sort_acc:
  "length (foldl (\<lambda>acc x. insert_doc spec x acc) acc xs) = length acc + length xs"
  by (induction xs arbitrary: acc) simp_all

lemma length_newest_matching:
  "length (newest_matching coll query) = countDocuments coll query"
  by (simp add: newest_matching_def sort_docs_def countDocuments_def length_sort_acc)

lemma offset_walk_all: "offset_walk rt coll query lmt None = newest_matching coll query"
proof -
  let ?S = "newest_matching coll query" and ?L = "limit_of lmt"
  define T where "T = nat \<lceil>rat_of_nat (countDocuments coll query) / rat_of_int (int ?L)\<rceil>"
  have page: "items_of (listProducts rt coll query (list_request_of (Some (decimal p)) lmt None None))
      = take ?L (drop ((p - 1) * ?L) ?S)" if "p \<in> set [1..<T + 1]" for p
  proof -
    have "0 < p" using that by auto
    then show ?thesis by (simp add: offset_response items_of_def)
  qed
  have "offset_walk rt coll query lmt None
      = concat (map (\<lambda>p. items_of (listProducts rt coll query
                              (list_request_of (Some (decimal p)) lmt None None))) [1..<T + 1])"
    unfolding offset_walk_def offset_response [of 1 rt coll query lmt, unfolded decimal_1, simplified]
      T_def
    by simp
  also have "\<dots> = concat (map (\<lambda>p. take ?L (drop ((p - 1) * ?L) ?S)) [1..<T + 1])"
    by (intro arg_cong [where f = concat] map_cong refl page)
  also have "\<dots> = take (T * ?L) ?S"
    by (rule concat_pages)
  also have "\<dots> = ?S"
    using pages_cover [OF limit_of_pos(1), of "countDocuments coll query" lmt]
      length_newest_matching [of coll query]
    by (simp add: T_def)
  finally show ?thesis .
qed


lemma last_take_nth:
  "n \<le> length xs \<Longrightarrow> n \<noteq> 0 \<Longrightarrow> last (take n xs) = xs ! (n - 1)"
  by (cases "xs = []") (simp_all add: last_conv_nth min_def)

lemma cursor_response:
  assumes "conforms rt" "distinct (map createdAt coll)"
    and "\<forall>d\<in>set coll. valid_instant (createdAt d) \<and> valid_oid (p_id d)"
    and "j < length (newest_matching coll query)"
  shows "listProducts rt coll query
           (list_request_of None lmt None (Some (encodeCursor rt (newest_matching coll query ! j))))
     = Inr (200,
            \<lparr>items = take (limit_of lmt) (drop (Suc j) (newest_matching coll query)),
             pagination = CursorMode (int (limit_of lmt))
               (if limit_of lmt < length (newest_matching coll query) - Suc j
                then Some (encodeCursor rt (newest_matching coll query ! (j + limit_of lmt)))
                else None)
               (limit_of lmt < length (newest_matching coll query) - Suc j)\<rparr>,
            ''Products fetched successfully'')"
proof -
  let ?S = "newest_matching coll query" and ?L = "limit_of lmt"
  let ?x = "?S ! j" and ?X = "drop (Suc j) ?S"
  let ?r = "list_request_of None lmt None (Some (encodeCursor rt ?x))"
  let ?cur = "\<lparr>c_createdAt = createdAt ?x, c_id = p_id ?x\<rparr>"
  note S = newest_matching_props [OF assms(2), of query]
  have "?x \<in> set ?S" using assms(4) by simp
  then have x: "?x \<in> set coll" using S(2) by simp
  have inj: "a = b" if "a \<in> set coll" "b \<in> set coll" "createdAt a = createdAt b" for a b
    using assms(2) that by (auto simp: distinct_map inj_on_def)
  have dec: "decodeCursor rt (the (q_cursor ?r)) = Inr ?cur"
    using decode_encode [OF assms(1), of ?x] assms(3) x by (simp add: list_request_of_def)
  have g: "given (q_cursor ?r)" "\<not> (given (q_sort ?r) \<and> q_sort ?r \<noteq> Some ''oldest'')"
    using encode_nonempty [OF assms(1), of ?x] by (simp_all add: list_request_of_def given_def)
  have pl: "parsePagination (q_page ?r) (q_limit ?r) = (1, int ?L)"
    using parsePagination_first by (simp add: list_request_of_def)
  let ?final = "combineQuery (Some query) (buildCursorFilter (Some ?cur) (q_sort ?r))"
  have sel: "(case ?final of None \<Rightarrow> True | Some f \<Rightarrow> matches f d)
      = (matches query d \<and> createdAt d < createdAt ?x)" if "d \<in> set coll" for d
  proof -
    have "p_id d = p_id ?x" if "createdAt d = createdAt ?x"
      using inj [OF \<open>d \<in> set coll\<close> x that] by simp
    then have "(createdAt d < createdAt ?x \<or> createdAt d = createdAt ?x \<and> p_id d < p_id ?x)
        = (createdAt d < createdAt ?x)"
      by auto
    then show ?thesis
      by (simp add: buildCursorFilter_def combineQuery_def list_request_of_def) blast
  qed
  have "filter (\<lambda>d. case ?final of None \<Rightarrow> True | Some f \<Rightarrow> matches f d) coll
      = filter (\<lambda>d. createdAt d < createdAt ?x) (filter (matches query) coll)"
    unfolding filter_filter by (rule filter_cong [OF refl]) (rule sel)
  moreover have "sort_docs (cursorSort None)
        (filter (\<lambda>d. createdAt d < createdAt ?x) (filter (matches query) coll))
      = filter (\<lambda>d. createdAt d < createdAt ?x) ?S"
    unfolding newest_matching_def
    using assms(2) by (intro sort_of_filter) (simp_all add: distinct_map_filter)
  moreover have "filter (\<lambda>d. createdAt d < createdAt ?x) ?S = ?X"
    using S(1) assms(4) by (rule newest_after)
  ultimately have found: "take (Suc ?L) ?X
      = find_docs coll ?final (cursorSort (q_sort ?r)) 0 (nat (int ?L) + 1)"
    by (simp add: find_docs_def list_request_of_def)
  have len: "length ?X = length ?S - Suc j"
    by simp
  have more: "(int ?L < int (length (take (Suc ?L) ?X))) = (?L < length ?S - Suc j)"
    by auto
  have page: "(if ?L < length ?S - Suc j then butlast (take (Suc ?L) ?X) else take (Suc ?L) ?X)
      = take ?L ?X"
    by (simp add: butlast_take)
  have "last (butlast (take (Suc ?L) ?X)) = ?S ! (j + ?L)" if "?L < length ?S - Suc j"
  proof -
    have "butlast (take (Suc ?L) ?X) = take ?L ?X"
      using that by (simp add: butlast_take)
    moreover have "last (take ?L ?X) = ?X ! (?L - 1)"
      using that limit_of_pos(1) [of lmt] by (intro last_take_nth) simp_all
    moreover have "?X ! (?L - 1) = ?S ! (j + ?L)"
      using that limit_of_pos(1) [of lmt] by simp
    ultimately show ?thesis by simp
  qed
  then have nxt: "(if ?L < length ?S - Suc j
                   then Some (encodeCursor rt (last (butlast (take (Suc ?L) ?X)))) else None)
      = (if ?L < length ?S - Suc j then Some (encodeCursor rt (?S ! (j + ?L))) else None)"
    by simp
  show ?thesis
    unfolding listProducts_cursor [OF g dec pl found] more page nxt ..
qed

lemma follow_rest:
  assumes "conforms rt" "distinct (map createdAt coll)"
    and "\<forall>d\<in>set coll. valid_instant (createdAt d) \<and> valid_oid (p_id d)"
  shows "j < length (newest_matching coll query) \<Longrightarrow>
         length (newest_matching coll query) - Suc j < fuel \<Longrightarrow>
         follow fuel rt coll query lmt None (Some (encodeCursor rt (newest_matching coll query ! j)))
           = Some (drop (Suc j) (newest_matching coll query))"
proof (induction fuel arbitrary: j)
  case 0
  then show ?case by simp
next
  case (Suc fuel)
  let ?S = "newest_matching coll query" and ?L = "limit_of lmt"
  note resp = cursor_response [OF assms Suc.prems(1), of lmt]
  show ?case
  proof (cases "?L < length ?S - Suc j")
    case True
    then have "j + ?L < length ?S" by simp
    moreover have "length ?S - Suc (j + ?L) < fuel"
      using Suc.prems(2) True limit_of_pos(1) [of lmt] by linarith
    ultimately have "follow fuel rt coll query lmt None (Some (encodeCursor rt (?S ! (j + ?L))))
        = Some (drop (Suc (j + ?L)) ?S)"
      by (rule Suc.IH)
    moreover have "take ?L (drop (Suc j) ?S) @ drop (Suc (j + ?L)) ?S = drop (Suc j) ?S"
      using append_take_drop_id [of ?L "drop (Suc j) ?S"] by (simp add: add.commute)
    ultimately show ?thesis
      using True by (simp add: resp)
  next
    case False
    then show ?thesis
      by (simp add: resp)
  qed
qed

lemma seeded_walk_all:
  assumes "conforms rt" "distinct (map createdAt coll)"
    and "\<forall>d\<in>set coll. valid_instant (createdAt d) \<and> valid_oid (p_id d)"
    and "length coll \<le> fuel"
  shows "seeded_walk fuel rt coll query lmt = Some (newest_matching coll query)"
proof (cases "newest_matching coll query = []")
  case True
  then show ?thesis
    by (simp add: seeded_walk_def first_response items_of_def)
next
  case False
  let ?S = "newest_matching coll query" and ?L = "limit_of lmt"
  let ?j = "min ?L (length ?S) - 1"
  have pos: "0 < ?L" "0 < length ?S"
    using False limit_of_pos(1) [of lmt] by simp_all
  have "length ?S \<le> length coll"
    using newest_matching_props(3) [OF assms(2), of query] by (simp add: countDocuments_def)
  then have fuel: "length ?S - Suc ?j < fuel"
    using assms(4) pos(2) by linarith
  have j: "?j < length ?S"
    using pos by linarith
  have first_page: "take ?L ?S \<noteq> []"
    using pos by simp
  have "last (take ?L ?S) = ?S ! ?j"
  proof (cases "?L \<le> length ?S")
    case True
    then show ?thesis
      using pos by (simp add: last_take_nth min_def)
  next
    case False
    then show ?thesis
      using pos \<open>?S \<noteq> []\<close> by (simp add: last_conv_nth min_def)
  qed
  then have "follow fuel rt coll query lmt None (Some (encodeCursor rt (last (take ?L ?S))))
      = Some (drop (Suc ?j) ?S)"
    using follow_rest [OF assms(1,2,3) j fuel, of lmt] by simp
  moreover have "take ?L ?S @ drop (Suc ?j) ?S = ?S"
  proof -
    have "Suc ?j = min ?L (length ?S)" using pos by linarith
    then show ?thesis
      by (cases "?L \<le> length ?S") (simp_all add: min_def)
  qed
  ultimately show ?thesis
    using first_page by (simp add: seeded_walk_def first_response items_of_def Let_def)
qed


lemma catalog_distinct: "distinct (map createdAt catalog)"
  by (simp add: catalog_def older_product_def newer_product_def)

lemma catalog_newest: "newest_matching catalog (Fields []) = [newer_product, older_product]"
  by (simp add: newest_matching_def catalog_def sort_docs_def before_offset
      older_product_def newer_product_def)

lemma limit_one: "limit_of (Some ''1'') = 1"
  by (simp add: limit_of_def parsePagination_def parseInt10_digit or_default_def)

text \<open>
  C8, as the claim states it, fails: a request without a cursor is served in offset mode,
  and an offset-mode response has no \<open>nextCursor\<close> and no \<open>hasNextPage\<close>. So the walk
  that starts without a cursor and follows \<open>nextCursor\<close> ends after its first request.
  On the catalog of two products of different instants, with one product per page, the
  offset pages give both products and that walk gives the newer one only.
\<close>

theorem cursorless_walk_stops:
  "distinct (map createdAt catalog)
   \<and> offset_walk reference catalog (Fields []) (Some ''1'') None = [newer_product, older_product]
   \<and> follow 5 reference catalog (Fields []) (Some ''1'') None None = Some [newer_product]"
proof -
  have five: "(5::nat) = Suc 4"
    by simp
  have "follow (Suc 4) reference catalog (Fields []) (Some ''1'') None None = Some [newer_product]"
    unfolding follow.simps by (simp add: first_response limit_one catalog_newest)
  then have "follow 5 reference catalog (Fields []) (Some ''1'') None None = Some [newer_product]"
    unfolding five .
  moreover have "offset_walk reference catalog (Fields []) (Some ''1'') None
      = [newer_product, older_product]"
    by (simp only: offset_walk_all catalog_newest)
  ultimately show ?thesis
    using catalog_distinct by (intro conjI)
qed

text \<open>
  C8, amended. On a fixed collection whose documents have pairwise different
  \<open>createdAt\<close> (and dates and ids that the cursor codec can carry), for every base filter
  and every \<open>limit\<close>, with no sort key sent (the default, newest first): the offset pages
  1, 2, ... up to \<open>totalPages\<close>, concatenated, are the matching documents from newest to
  oldest; and the walk that takes its first page from the request without a cursor,
  builds the cursor of that page's last document as \<^verbatim>\<open>encodeCursor\<close> does, and from
  there follows \<open>nextCursor\<close> until \<open>hasNextPage\<close> is false, gives, element for
  element, the same list. That walk ends: after its first request it makes at most as many
  requests with a cursor as the collection has documents (\<open>fuel\<close> counts the requests
  with a cursor, and every \<open>fuel\<close> from the size of the collection on is enough).
\<close>

theorem offset_cursor_equivalence:
  assumes "conforms rt"
    and "distinct (map createdAt coll)"
    and "\<forall>d\<in>set coll. valid_instant (createdAt d) \<and> valid_oid (p_id d)"
    and "length coll \<le> fuel"
  shows "offset_walk rt coll query lmt None = newest_matching coll query
     \<and> seeded_walk fuel rt coll query lmt = Some (offset_walk rt coll query lmt None)"
  using offset_walk_all [of rt coll query lmt] seeded_walk_all [OF assms] by simp

theorem offset_cursor_equivalence_witness:
  "offset_walk reference catalog (Fields []) (Some ''1'') None = [newer_product, older_product]
   \<and> seeded_walk 2 reference catalog (Fields []) (Some ''1'') = Some [newer_product, older_product]
   \<and> seeded_walk 1 reference [older_product] (Fields []) None = Some [older_product]"
proof -
  have valid: "\<forall>d\<in>set catalog. valid_instant (createdAt d) \<and> valid_oid (p_id d)"
    using older_valid newer_valid by (simp add: catalog_def)
  have fuel: "length catalog \<le> 2"
    by (simp add: catalog_def)
  have single: "distinct (map createdAt [older_product])"
    "\<forall>d\<in>set [older_product]. valid_instant (createdAt d) \<and> valid_oid (p_id d)"
    "length [older_product] \<le> 1"
    "newest_matching [older_product] (Fields []) = [older_product]"
    using older_valid by (simp_all add: newest_matching_def sort_docs_def)
  show ?thesis
    using offset_cursor_equivalence [OF reference_conforms catalog_distinct valid fuel,
        of "Fields []" "Some ''1''"]
      offset_cursor_equivalence [OF reference_conforms single(1,2,3), of "Fields []" None]
    by (simp add: catalog_newest single(4))
qed


subsection \<open>Two products of one instant\<close>

lemma twins_newest: "newest_matching [twin_a, twin_b] (Fields []) = [twin_a, twin_b]"
  by (simp add: newest_matching_def sort_docs_def before_offset twin_a_def twin_b_def)

lemma twin_a_valid: "valid_instant (createdAt twin_a)" "valid_oid (p_id twin_a)"
  by (simp_all add: twin_a_def valid_oid_def days_in_month_def)

lemma twins_after_a:
  "listProducts reference [twin_a, twin_b] (Fields [])
      (list_request_of None (Some ''1'') None (Some (encodeCursor reference twin_a)))
     = Inr (200, \<lparr>items = [], pagination = CursorMode 1 None False\<rparr>,
            ''Products fetched successfully'')"
proof -
  let ?c = "\<lparr>c_createdAt = (2024, 3, 1, 0, 0, 0, 0), c_id = 1\<rparr>"
  let ?r = "list_request_of None (Some ''1'') None (Some (encodeCursor reference twin_a))"
  have dec: "decodeCursor reference (the (q_cursor ?r)) = Inr ?c"
    using decode_encode [OF reference_conforms twin_a_valid]
    by (simp add: twin_a_def list_request_of_def)
  have g: "given (q_cursor ?r)" "\<not> (given (q_sort ?r) \<and> q_sort ?r \<noteq> Some ''oldest'')"
    using token_given [of twin_a] by (simp_all add: list_request_of_def given_def)
  have pp: "parsePagination (q_page ?r) (q_limit ?r) = (1, 1)"
    using parsePagination_first [of "Some ''1''"] by (simp add: list_request_of_def limit_one)
  have found: "[] = find_docs [twin_a, twin_b]
        (combineQuery (Some (Fields [])) (buildCursorFilter (Some ?c) (q_sort ?r)))
        (cursorSort (q_sort ?r)) 0 (nat 1 + 1)"
    by (simp add: list_request_of_def buildCursorFilter_def combineQuery_def find_docs_def
        sort_docs_def twin_a_def twin_b_def)
  show ?thesis
    unfolding listProducts_cursor [OF g dec pp found] by simp
qed

text \<open>
  C2. The claim fails in offset mode. The cursor branch sorts by \<open>createdAt\<close> and then
  \<open>_id\<close>; the offset branch sends the single key of \<^verbatim>\<open>buildSort\<close>, so two products of
  one instant are tied and keep the order of the collection, \<open>a\<close> before \<open>b\<close>, where the
  cursor branch puts \<open>b\<close> (the greater id) first. A client that pages through one fixed
  collection of these two products, one per page, gets \<open>a\<close> on the first page (a request
  without a cursor is served in offset mode) and then, with the cursor of \<open>a\<close>, an empty
  last page: \<open>b\<close> is skipped.
\<close>

theorem tied_product_skipped:
  "buildSort None = [(''createdAt'', - 1)]
   \<and> cursorSort None = [(''createdAt'', - 1), (''_id'', - 1)]
   \<and> createdAt twin_a = createdAt twin_b
   \<and> p_id twin_a \<noteq> p_id twin_b
   \<and> \<not> before (buildSort None) twin_a twin_b
   \<and> \<not> before (buildSort None) twin_b twin_a
   \<and> before (cursorSort None) twin_b twin_a
   \<and> offset_walk reference [twin_a, twin_b] (Fields []) (Some ''1'') None = [twin_a, twin_b]
   \<and> listProducts reference [twin_a, twin_b] (Fields [])
        (list_request_of None (Some ''1'') None None)
       = Inr (200, \<lparr>items = [twin_a], pagination = OffsetMode 2 1 1 2\<rparr>,
              ''Products fetched successfully'')
   \<and> listProducts reference [twin_a, twin_b] (Fields [])
        (list_request_of None (Some ''1'') None (Some (encodeCursor reference twin_a)))
       = Inr (200, \<lparr>items = [], pagination = CursorMode 1 None False\<rparr>,
              ''Products fetched successfully'')
   \<and> seeded_walk 5 reference [twin_a, twin_b] (Fields []) (Some ''1'') = Some [twin_a]"
proof -
  have specs: "buildSort None = [(''createdAt'', - 1)]"
    "cursorSort None = [(''createdAt'', - 1), (''_id'', - 1)]"
    by (simp_all add: buildSort_def cursorSort_def)
  have twins: "createdAt twin_a = createdAt twin_b" "p_id twin_a \<noteq> p_id twin_b"
    "\<not> before (buildSort None) twin_a twin_b" "\<not> before (buildSort None) twin_b twin_a"
    "before (cursorSort None) twin_b twin_a"
    by (simp_all add: buildSort_def cursorSort_def twin_a_def twin_b_def)
  have walk: "offset_walk reference [twin_a, twin_b] (Fields []) (Some ''1'') None
      = [twin_a, twin_b]"
    by (simp only: offset_walk_all twins_newest)
  have first: "listProducts reference [twin_a, twin_b] (Fields [])
        (list_request_of None (Some ''1'') None None)
       = Inr (200, \<lparr>items = [twin_a], pagination = OffsetMode 2 1 1 2\<rparr>,
              ''Products fetched successfully'')"
    by (simp add: first_response limit_one twins_newest countDocuments_def)
  have five: "(5::nat) = Suc 4"
    by simp
  have "follow (Suc 4) reference [twin_a, twin_b] (Fields []) (Some ''1'') None
      (Some (encodeCursor reference twin_a)) = Some []"
    unfolding follow.simps twins_after_a by simp
  then have "seeded_walk 5 reference [twin_a, twin_b] (Fields []) (Some ''1'') = Some [twin_a]"
    unfolding five seeded_walk_def first by (simp add: items_of_def)
  with specs twins walk first twins_after_a show ?thesis
    by (intro conjI)
qed

end
